theory Spec2Isabelle
  imports Main
begin

section \<open>JavaScript strings\<close>

text \<open>
  Strings are lists of characters, a character being a code unit below 256 (the
  Latin-1 range, which holds every literal of the verified functions). The helpers
  below are the \<open>String.prototype\<close> methods those functions call: \<open>trim\<close>,
  \<open>toLowerCase\<close>, \<open>startsWith\<close> and \<open>replace(/\D/g, '')\<close>.
\<close>

definition is_ws :: "char \<Rightarrow> bool" where
  "is_ws c = (c \<in> set [CHR 0x09, CHR 0x0A, CHR 0x0B, CHR 0x0C, CHR 0x0D, CHR '' '', CHR 0xA0])"

definition js_trim :: "string \<Rightarrow> string" where
  "js_trim s = rev (dropWhile is_ws (rev (dropWhile is_ws s)))"

definition upper_letters :: string where
  \<comment> \<open>A to Z, and the capital letters of the Latin-1 block\<close>
  "upper_letters =
     ''ABCDEFGHIJKLMNOPQRSTUVWXYZ''
     @ [CHR 0xC0, CHR 0xC1, CHR 0xC2, CHR 0xC3, CHR 0xC4, CHR 0xC5, CHR 0xC6, CHR 0xC7,
        CHR 0xC8, CHR 0xC9, CHR 0xCA, CHR 0xCB, CHR 0xCC, CHR 0xCD, CHR 0xCE, CHR 0xCF,
        CHR 0xD0, CHR 0xD1, CHR 0xD2, CHR 0xD3, CHR 0xD4, CHR 0xD5, CHR 0xD6,
        CHR 0xD8, CHR 0xD9, CHR 0xDA, CHR 0xDB, CHR 0xDC, CHR 0xDD, CHR 0xDE]"

definition lower_letters :: string where
  "lower_letters =
     ''abcdefghijklmnopqrstuvwxyz''
     @ [CHR 0xE0, CHR 0xE1, CHR 0xE2, CHR 0xE3, CHR 0xE4, CHR 0xE5, CHR 0xE6, CHR 0xE7,
        CHR 0xE8, CHR 0xE9, CHR 0xEA, CHR 0xEB, CHR 0xEC, CHR 0xED, CHR 0xEE, CHR 0xEF,
        CHR 0xF0, CHR 0xF1, CHR 0xF2, CHR 0xF3, CHR 0xF4, CHR 0xF5, CHR 0xF6,
        CHR 0xF8, CHR 0xF9, CHR 0xFA, CHR 0xFB, CHR 0xFC, CHR 0xFD, CHR 0xFE]"

definition lower_char :: "char \<Rightarrow> char" where
  "lower_char c = (case map_of (zip upper_letters lower_letters) c of Some l \<Rightarrow> l | None \<Rightarrow> c)"

definition toLowerCase :: "string \<Rightarrow> string" where
  "toLowerCase s = map lower_char s"

definition startsWith :: "string \<Rightarrow> string \<Rightarrow> bool" where
  "startsWith s p = (take (length p) s = p)"

definition is_digit :: "char \<Rightarrow> bool" where
  "is_digit c = (c \<in> set ''0123456789'')"

definition digits_only :: "string \<Rightarrow> string" where
  \<comment> \<open>\<open>s.replace(/\D/g, '')\<close>\<close>
  "digits_only s = filter is_digit s"

section \<open>Event log (server/index.js)\<close>

text \<open>
  \<open>eventSeq\<close> and \<open>events\<close> are the two module-level variables of the server; a state
  of the log is the pair of them. The counter is a JavaScript number that only ever
  takes the values 0, 1, 2, ...; it is modelled as a natural number (the increment is
  exact on every value below \<open>2^53\<close>). An admitted event is the object
  \<open>{ seq, ...event }\<close>: the sequence number together with the fields the webhook
  handler supplies, which do not include a \<open>seq\<close> of their own.
\<close>

record 'a log_event =
  seq :: nat
  payload :: 'a

record 'a event_log =
  eventSeq :: nat
  events :: "'a log_event list"

definition MAX_EVENTS :: nat where
  "MAX_EVENTS = 500"

definition initial_log :: "'a event_log" where
  \<comment> \<open>\<open>let eventSeq = 0; const events = []\<close>\<close>
  "initial_log = \<lparr>eventSeq = 0, events = []\<rparr>"

definition pushEvent :: "'a event_log \<Rightarrow> 'a \<Rightarrow> 'a log_event \<times> 'a event_log" where
  "pushEvent st event =
     (let seq = eventSeq st + 1;
          next = \<lparr>seq = seq, payload = event\<rparr>;
          pushed = events st @ [next];
          kept = (if length pushed > MAX_EVENTS
                  then drop (length pushed - MAX_EVENTS) pushed
                  else pushed)
      in (next, \<lparr>eventSeq = seq, events = kept\<rparr>))"

definition readAfter :: "'a event_log \<Rightarrow> nat \<Rightarrow> 'a log_event list \<times> nat" where
  \<comment> \<open>the \<open>GET /api/evolution/events\<close> handler for a cursor that is a natural number:
      \<open>events\<close> and \<open>nextAfter\<close> of the reply\<close>
  "readAfter st after = (filter (\<lambda>event. seq event > after) (events st), eventSeq st)"

fun admit_all :: "'a event_log \<Rightarrow> 'a list \<Rightarrow> 'a log_event list \<times> 'a event_log" where
  \<comment> \<open>a run of \<open>pushEvent\<close> calls; the first component collects what each call returned\<close>
  "admit_all st [] = ([], st)"
| "admit_all st (event # rest) =
     (let (admitted, st') = pushEvent st event;
          (others, st'') = admit_all st' rest
      in (admitted # others, st''))"

fun numbered :: "nat \<Rightarrow> 'a list \<Rightarrow> 'a log_event list" where
  \<comment> \<open>the payloads tagged with the consecutive numbers \<open>k + 1, k + 2, ...\<close>\<close>
  "numbered k [] = []"
| "numbered k (p # ps) = \<lparr>seq = Suc k, payload = p\<rparr> # numbered (Suc k) ps"

definition keep_last :: "nat \<Rightarrow> 'a list \<Rightarrow> 'a list" where
  "keep_last n xs = drop (length xs - n) xs"

section \<open>Gateway client (server/index.js)\<close>

text \<open>
  \<open>fetch\<close> is the only access to the network. One attempt either yields an HTTP
  response, of which the code reads \<open>status\<close> and the body text, or an exception
  inside the \<open>try\<close> block (the request could not be made or the body not be read),
  of which the code keeps \<open>String(err?.message || err)\<close>. The remote side is a
  function from requests to such outcomes; \<open>JSON.parse\<close> is a parameter that returns
  \<open>None\<close> where the source ends with \<open>json = null\<close> (a parse error or the document
  \<open>null\<close>). Beside the result object the model returns the candidates for which a
  request was made, in the order of the requests.
\<close>

datatype fetch_outcome = Response nat string | Rejected string

datatype 'j payload_data = Json 'j | Text string

record request =
  url :: string
  http_method :: string
  headers :: "(string \<times> string) list"
  body :: "string option"

record 'j try_result =
  ok :: bool
  status :: nat
  path :: "string option"
  data :: "'j payload_data option"
  error :: "string option"

record try_args =
  baseUrl :: string
  apiKey :: string
  request_method :: string
  paths :: "string list"
  json_body :: "string option"

definition normalizeBaseUrl :: "string \<Rightarrow> string" where
  "normalizeBaseUrl base =
     (let trimmed = js_trim base
      in if trimmed = [] then []
         else if last trimmed = CHR ''/'' then butlast trimmed else trimmed)"

definition buildAuthHeaders :: "string \<Rightarrow> (string \<times> string) list" where
  "buildAuthHeaders key =
     (let token = js_trim key
      in if token = [] then []
         else [(''apikey'', token), (''authorization'', ''Bearer '' @ token)])"

definition response_data :: "(string \<Rightarrow> 'j option) \<Rightarrow> string \<Rightarrow> 'j payload_data" where
  \<comment> \<open>\<open>json ?? text ?? null\<close>, with \<open>json = text ? JSON.parse(text) : null\<close>\<close>
  "response_data parse text =
     (case (if text = [] then None else parse text) of
        Some json \<Rightarrow> Json json
      | None \<Rightarrow> Text text)"

definition candidate_url :: "string \<Rightarrow> string \<Rightarrow> string" where
  "candidate_url normalized candidate =
     normalized @ (if startsWith candidate ''/'' then candidate else ''/'' @ candidate)"

definition request_for :: "try_args \<Rightarrow> string \<Rightarrow> request" where
  \<comment> \<open>the request the loop makes for one candidate path\<close>
  "request_for args candidate =
     \<lparr>url = candidate_url (normalizeBaseUrl (baseUrl args)) candidate,
      http_method = request_method args,
      headers = (''content-type'', ''application/json'') # buildAuthHeaders (apiKey args),
      body = json_body args\<rparr>"

definition attempted :: "string \<Rightarrow> 'r \<times> string list \<Rightarrow> 'r \<times> string list" where
  "attempted candidate r = (fst r, candidate # snd r)"

definition rejected_result :: "string \<Rightarrow> string \<Rightarrow> 'j try_result" where
  \<comment> \<open>the object the \<open>catch\<close> branch stores in \<open>lastError\<close>\<close>
  "rejected_result candidate msg =
     \<lparr>ok = False, status = 0, path = Some candidate, data = None, error = Some msg\<rparr>"

fun try_candidates ::
  "(request \<Rightarrow> fetch_outcome) \<Rightarrow> (string \<Rightarrow> 'j option) \<Rightarrow> try_args \<Rightarrow>
   'j try_result option \<Rightarrow> string list \<Rightarrow> 'j try_result \<times> string list" where
  "try_candidates fetch parse args lastError [] =
     (case lastError of
        Some e \<Rightarrow> e
      | None \<Rightarrow> \<lparr>ok = False, status = 500, path = None, data = None,
                 error = Some ''Falha ao chamar Evolution API''\<rparr>,
      [])"
| "try_candidates fetch parse args lastError (candidate # rest) =
     (case fetch (request_for args candidate) of
        Response st text \<Rightarrow>
          if 200 \<le> st \<and> st \<le> 299
          then (\<lparr>ok = True, status = st, path = Some candidate,
                 data = Some (response_data parse text), error = None\<rparr>,
                [candidate])
          else let failure = \<lparr>ok = False, status = st, path = Some candidate,
                              data = Some (response_data parse text), error = None\<rparr>
               in if st \<noteq> 404 then (failure, [candidate])
                  else attempted candidate (try_candidates fetch parse args (Some failure) rest)
      | Rejected msg \<Rightarrow>
          attempted candidate
            (try_candidates fetch parse args (Some (rejected_result candidate msg)) rest))"

definition evolutionTryRequest ::
  "(request \<Rightarrow> fetch_outcome) \<Rightarrow> (string \<Rightarrow> 'j option) \<Rightarrow> try_args \<Rightarrow>
   'j try_result \<times> string list" where
  "evolutionTryRequest fetch parse args =
     (if normalizeBaseUrl (baseUrl args) = []
      then (\<lparr>ok = False, status = 400, path = None, data = None,
              error = Some ''EVOLUTION_BASE_URL ausente''\<rparr>, [])
      else try_candidates fetch parse args None (paths args))"

definition answer :: "(request \<Rightarrow> fetch_outcome) \<Rightarrow> try_args \<Rightarrow> string \<Rightarrow> nat option" where
  \<comment> \<open>the HTTP status the remote side gives a candidate, if it gives a response\<close>
  "answer fetch args candidate =
     (case fetch (request_for args candidate) of
        Response st text \<Rightarrow> Some st
      | Rejected msg \<Rightarrow> None)"

definition passes_on :: "(request \<Rightarrow> fetch_outcome) \<Rightarrow> try_args \<Rightarrow> string \<Rightarrow> bool" where
  \<comment> \<open>the outcomes after which the loop goes on: a 404 response or an exception\<close>
  "passes_on fetch args candidate =
     (case fetch (request_for args candidate) of
        Response st text \<Rightarrow> st = 404
      | Rejected msg \<Rightarrow> True)"

section \<open>Phone normalisation (agentNormalizePhone)\<close>

definition phone_trimmed :: "string \<Rightarrow> string" where
  \<comment> \<open>the local \<open>trimmed\<close> of \<open>agentNormalizePhone\<close>\<close>
  "phone_trimmed raw =
     (let digits = digits_only raw
      in if startsWith digits ''55'' \<and> length digits > 11 then drop 2 digits else digits)"

definition agentNormalizePhone :: "string \<Rightarrow> string" where
  "agentNormalizePhone raw =
     (let trimmed = phone_trimmed raw
      in if length trimmed = 11
         then ''('' @ take 2 trimmed @ '') '' @ take 5 (drop 2 trimmed) @ ''-'' @ drop 7 trimmed
         else if length trimmed = 10
         then ''('' @ take 2 trimmed @ '') '' @ take 4 (drop 2 trimmed) @ ''-'' @ drop 6 trimmed
         else raw)"

text \<open>Concrete remote sides for the scenarios of the dispatch contract.\<close>

definition scenario_args :: try_args where
  "scenario_args =
     \<lparr>baseUrl = ''https://evo.example/'', apiKey = ''secret'', request_method = ''GET'',
      paths = [''/A'', ''B'', ''/C''], json_body = None\<rparr>"

definition parse_empty_object :: "string \<Rightarrow> unit option" where
  "parse_empty_object content = (if content = ''{}'' then Some () else None)"

definition fetch_only_C :: "request \<Rightarrow> fetch_outcome" where
  \<comment> \<open>A and B answer 404, C answers 200\<close>
  "fetch_only_C r =
     (if url r = ''https://evo.example/C'' then Response 200 ''{}'' else Response 404 [])"

definition fetch_A_500 :: "request \<Rightarrow> fetch_outcome" where
  \<comment> \<open>A answers 500; B and C would answer 200\<close>
  "fetch_A_500 r =
     (if url r = ''https://evo.example/A'' then Response 500 ''boom'' else Response 200 ''{}'')"

definition fetch_A_down :: "request \<Rightarrow> fetch_outcome" where
  \<comment> \<open>the request for A throws; B and C answer 200\<close>
  "fetch_A_down r =
     (if url r = ''https://evo.example/A'' then Rejected ''fetch failed'' else Response 200 ''{}'')"

section \<open>Draft values (agentMergeDraft, agentComputeLeadScore, agentPickNextStageId)\<close>

text \<open>
  A draft and a signal set are JavaScript objects whose property values are strings
  and numbers. The numbers that occur are whole (a bedroom count, a rounded budget) or
  not finite (a rounded budget can overflow to \<open>Infinity\<close>), so a number is an
  integer, \<open>NaN\<close> or one of the infinities. An object is a map from its own property
  names to values; \<open>Object.entries\<close> of an object is the list of its properties, each
  name once.
\<close>

datatype jsnumber = Finite int | NaN | PosInfinity | NegInfinity

datatype jsval = Undefined | Null | Str string | Num jsnumber

type_synonym draft = "string \<rightharpoonup> jsval"

fun truthy :: "jsval \<Rightarrow> bool" where
  "truthy Undefined = False"
| "truthy Null = False"
| "truthy (Str s) = (s \<noteq> [])"
| "truthy (Num (Finite n)) = (n \<noteq> 0)"
| "truthy (Num NaN) = False"
| "truthy (Num PosInfinity) = True"
| "truthy (Num NegInfinity) = True"

definition get_prop :: "draft \<Rightarrow> string \<Rightarrow> jsval" where
  \<comment> \<open>\<open>draft?.key\<close>\<close>
  "get_prop d key = (case d key of None \<Rightarrow> Undefined | Some v \<Rightarrow> v)"

definition blank_string :: "jsval \<Rightarrow> bool" where
  \<comment> \<open>\<open>typeof value === 'string' && value.trim() === ''\<close>\<close>
  "blank_string v = (case v of Str s \<Rightarrow> js_trim s = [] | _ \<Rightarrow> False)"

definition agentMergeDraft :: "draft \<Rightarrow> (string \<times> jsval) list \<Rightarrow> draft" where
  "agentMergeDraft prevDraft signals =
     fold (\<lambda>(key, v) next.
             if v = Undefined \<or> v = Null then next
             else if blank_string v then next
             else next(key \<mapsto> v))
          signals prevDraft"

definition agentComputeLeadScore :: "draft \<Rightarrow> int" where
  "agentComputeLeadScore d =
     (let base = 25;
          points = [if truthy (get_prop d ''name'') then 10 else 0,
                    if truthy (get_prop d ''email'') then 15 else 0,
                    if truthy (get_prop d ''phone'') then 15 else 0,
                    if truthy (get_prop d ''intent'') then 5 else 0,
                    if truthy (get_prop d ''propertyType'') then 10 else 0,
                    if truthy (get_prop d ''location'') then 10 else 0,
                    if truthy (get_prop d ''bedrooms'') then 5 else 0,
                    if truthy (get_prop d ''budget'') then 15 else 0]
      in min 100 (foldl (\<lambda>acc v. acc + v) base points))"

text \<open>
  \<open>rank[prevStageId]\<close> reads a property of an object literal: one of the six numbers,
  a member inherited from \<open>Object.prototype\<close>, or \<open>undefined\<close>. A number compared
  with an inherited member (a function or an object) is a comparison with \<open>NaN\<close>,
  which is false.
\<close>

datatype rank_entry = RankNumber nat | RankInherited

definition object_prototype_members :: "string list" where
  "object_prototype_members =
     [''constructor'', ''hasOwnProperty'', ''isPrototypeOf'', ''propertyIsEnumerable'',
      ''toLocaleString'', ''toString'', ''valueOf'', ''__proto__'', ''__defineGetter__'',
      ''__defineSetter__'', ''__lookupGetter__'', ''__lookupSetter__'']"

definition rank :: "string \<Rightarrow> rank_entry option" where
  "rank key =
     (case map_of [(''new'', 0), (''contacted'', 1), (''qualified'', 2), (''proposal'', 3),
                   (''negotiation'', 4), (''won'', 5)] key of
        Some n \<Rightarrow> Some (RankNumber n)
      | None \<Rightarrow> if key \<in> set object_prototype_members then Some RankInherited else None)"

definition rank_or_zero :: "string option \<Rightarrow> rank_entry" where
  \<comment> \<open>\<open>rank[id] ?? 0\<close>; an absent id (\<open>undefined\<close>, \<open>null\<close>) is no property of \<open>rank\<close>\<close>
  "rank_or_zero stage =
     (case stage of
        None \<Rightarrow> RankNumber 0
      | Some s \<Rightarrow> (case rank s of None \<Rightarrow> RankNumber 0 | Some r \<Rightarrow> r))"

fun rank_greater :: "rank_entry \<Rightarrow> rank_entry \<Rightarrow> bool" where
  "rank_greater (RankNumber a) (RankNumber b) = (a > b)"
| "rank_greater _ _ = False"

definition desired_stage_id :: "draft \<Rightarrow> string" where
  \<comment> \<open>the local \<open>desired\<close> of \<open>agentPickNextStageId\<close>\<close>
  "desired_stage_id d =
     (if truthy (get_prop d ''intent'') \<and> truthy (get_prop d ''budget'')
         \<and> (truthy (get_prop d ''location'') \<or> truthy (get_prop d ''propertyType''))
      then ''qualified'' else ''contacted'')"

definition agentPickNextStageId :: "string option \<Rightarrow> draft \<Rightarrow> string" where
  "agentPickNextStageId prevStageId d =
     (let currentRank = rank_or_zero prevStageId;
          desired = desired_stage_id d;
          desiredRank = rank_or_zero (Some desired)
      in if rank_greater desiredRank currentRank then desired
         else (case prevStageId of None \<Rightarrow> desired | Some s \<Rightarrow> s))"

text \<open>
  The pipeline stages of the specification, in their order, and what the specification
  says of a draft: a fact is held when the draft has a usable value for it (the test
  \<open>draft?.key\<close> of the code: a non-empty string, a number other than 0 and
  \<open>NaN\<close>), and it is recorded when the draft has any value for it.
\<close>

datatype stage = New | Contacted | Qualified | Proposal | Negotiation | Won

fun stage_id :: "stage \<Rightarrow> string" where
  "stage_id New = ''new''"
| "stage_id Contacted = ''contacted''"
| "stage_id Qualified = ''qualified''"
| "stage_id Proposal = ''proposal''"
| "stage_id Negotiation = ''negotiation''"
| "stage_id Won = ''won''"

fun stage_rank :: "stage \<Rightarrow> nat" where
  "stage_rank New = 0"
| "stage_rank Contacted = 1"
| "stage_rank Qualified = 2"
| "stage_rank Proposal = 3"
| "stage_rank Negotiation = 4"
| "stage_rank Won = 5"

definition max_stage :: "stage \<Rightarrow> stage \<Rightarrow> stage" where
  "max_stage a b = (if stage_rank a < stage_rank b then b else a)"

definition holds :: "draft \<Rightarrow> string \<Rightarrow> bool" where
  "holds d key = truthy (get_prop d key)"

definition recorded :: "draft \<Rightarrow> string \<Rightarrow> bool" where
  "recorded d key = (get_prop d key \<noteq> Undefined \<and> get_prop d key \<noteq> Null)"

definition desiredStage :: "draft \<Rightarrow> stage" where
  "desiredStage d =
     (if holds d ''intent'' \<and> holds d ''budget'' \<and> (holds d ''location'' \<or> holds d ''propertyType'')
      then Qualified else Contacted)"

definition weight :: "bool \<Rightarrow> int \<Rightarrow> int" where
  "weight present w = (if present then w else 0)"

definition score_as_specified :: "draft \<Rightarrow> int" where
  \<comment> \<open>the score of the specification, a weight for each fact that is present in the draft\<close>
  "score_as_specified d =
     min 100 (25 + weight (recorded d ''name'') 10 + weight (recorded d ''email'') 15
                 + weight (recorded d ''phone'') 15 + weight (recorded d ''intent'') 5
                 + weight (recorded d ''propertyType'') 10 + weight (recorded d ''location'') 10
                 + weight (recorded d ''bedrooms'') 5 + weight (recorded d ''budget'') 15)"

definition overwrites_as_specified :: "jsval \<Rightarrow> bool" where
  \<comment> \<open>the values the specification lets a signal overwrite with:
      a non-empty string or a finite number\<close>
  "overwrites_as_specified v =
     (case v of Str s \<Rightarrow> s \<noteq> [] | Num (Finite n) \<Rightarrow> True | _ \<Rightarrow> False)"

definition merge_as_specified :: "draft \<Rightarrow> (string \<times> jsval) list \<Rightarrow> draft" where
  "merge_as_specified d signals =
     (\<lambda>key. case map_of signals key of
               Some v \<Rightarrow> if overwrites_as_specified v then Some v else d key
             | None \<Rightarrow> d key)"

definition writes :: "jsval \<Rightarrow> bool" where
  \<comment> \<open>the values \<open>agentMergeDraft\<close> stores: anything but \<open>undefined\<close>, \<open>null\<close>
      and a string that is empty after trimming\<close>
  "writes v = (v \<noteq> Undefined \<and> v \<noteq> Null \<and> \<not> blank_string v)"

text \<open>Concrete drafts and signal sets for the scenarios.\<close>

definition empty_draft :: draft where
  "empty_draft = Map.empty"

definition ana_draft :: draft where
  "ana_draft = [''name'' \<mapsto> Str ''Ana'']"

definition qualified_draft :: draft where
  "qualified_draft =
     [''intent'' \<mapsto> Str ''buy'', ''budget'' \<mapsto> Num (Finite 500000),
      ''location'' \<mapsto> Str ''Pinheiros'']"

definition zero_bedrooms_signal :: "(string \<times> jsval) list" where
  \<comment> \<open>what the extractor yields for the text \<open>0 quartos\<close>\<close>
  "zero_bedrooms_signal = [(''bedrooms'', Num (Finite 0))]"

definition infinite_budget_signal :: "(string \<times> jsval) list" where
  "infinite_budget_signal = [(''budget'', Num PosInfinity)]"

definition blank_name_signal :: "(string \<times> jsval) list" where
  "blank_name_signal = [(''name'', Str '' '')]"

definition email_phone_signal :: "(string \<times> jsval) list" where
  "email_phone_signal = [(''email'', Str ''ana@example.com''), (''phone'', Str '''')]"

section \<open>Workflow orchestrator (runAgentWorkflow)\<close>

text \<open>
  One call of \<open>runAgentWorkflow\<close> reads the session of the channel, the lead list, the
  automation list and the settings, and writes the lead, task and deal stores and the
  session. The model covers the decisions of the call and the records it writes: the
  draft, score and stage, the resolution of the lead, the creation or update of the
  lead, the follow-up task, the deal, the automation tasks, and the session written by
  \<open>setSession\<close>. The texts shown to the user (reply, event lines, rendered titles and
  labels) and the outgoing reply are left out, as are the payload fields \<open>value\<close> and
  \<open>lastTouch\<close>, which no decision reads. The signal extractor and the conversion of
  a string to a number are parameters; the identifiers \<open>createId\<close> draws are inputs.
  Each call reads the session the previous call wrote.
\<close>

fun digits_of_nat :: "nat \<Rightarrow> string" where
  "digits_of_nat n =
     (if n < 10 then [''0123456789'' ! n]
      else digits_of_nat (n div 10) @ [''0123456789'' ! (n mod 10)])"

definition js_String :: "jsval \<Rightarrow> string" where
  \<comment> \<open>\<open>String(v)\<close>; integers in plain decimal notation\<close>
  "js_String v =
     (case v of
        Undefined \<Rightarrow> ''undefined''
      | Null \<Rightarrow> ''null''
      | Str s \<Rightarrow> s
      | Num n \<Rightarrow>
          (case n of
             Finite i \<Rightarrow> if i < 0 then ''-'' @ digits_of_nat (nat (- i)) else digits_of_nat (nat i)
           | NaN \<Rightarrow> ''NaN''
           | PosInfinity \<Rightarrow> ''Infinity''
           | NegInfinity \<Rightarrow> ''-Infinity''))"

definition or_empty :: "jsval \<Rightarrow> jsval" where
  \<comment> \<open>\<open>v ?? ''\<close>\<close>
  "or_empty v = (if v = Undefined \<or> v = Null then Str [] else v)"

definition js_Number :: "(string \<Rightarrow> jsnumber) \<Rightarrow> jsval \<Rightarrow> jsnumber" where
  \<comment> \<open>\<open>Number(v)\<close>\<close>
  "js_Number string_to_number v =
     (case v of
        Undefined \<Rightarrow> NaN
      | Null \<Rightarrow> Finite 0
      | Str s \<Rightarrow> string_to_number s
      | Num n \<Rightarrow> n)"

fun number_positive :: "jsnumber \<Rightarrow> bool" where
  \<comment> \<open>\<open>n > 0\<close>\<close>
  "number_positive (Finite i) = (i > 0)"
| "number_positive PosInfinity = True"
| "number_positive _ = False"

definition optional_trim :: "jsval \<Rightarrow> string option option" where
  \<comment> \<open>\<open>v?.trim()\<close>: \<open>None\<close> is the TypeError of calling \<open>trim\<close> on a number,
      \<open>Some None\<close> the \<open>undefined\<close> of an absent value\<close>
  "optional_trim v =
     (case v of
        Undefined \<Rightarrow> Some None
      | Null \<Rightarrow> Some None
      | Str s \<Rightarrow> Some (Some (js_trim s))
      | Num n \<Rightarrow> None)"

definition id_truthy :: "string option \<Rightarrow> bool" where
  \<comment> \<open>the truth value of an identifier that may be \<open>null\<close> or \<open>undefined\<close>\<close>
  "id_truthy i = (case i of None \<Rightarrow> False | Some s \<Rightarrow> s \<noteq> [])"

record lead =
  lead_id :: string
  lead_name :: string
  lead_company :: string
  lead_email :: jsval
  lead_phone :: jsval
  lead_origin :: string
  lead_score :: int
  lead_stageId :: "string option"

record lead_payload =
  payload_name :: string
  payload_company :: string
  payload_email :: jsval
  payload_phone :: jsval
  payload_origin :: string
  payload_score :: int
  payload_stageId :: string

datatype task_title = FollowUpTitle string | AutomationTitle string nat

datatype task_note = FollowUpNote | DefaultAutomationNote | StepMessage string

datatype due_label = Hoje | Agora | Minutes nat

record task =
  task_id :: string
  task_title :: task_title
  task_note :: task_note
  task_type :: string
  task_dueLabel :: due_label
  task_priority :: string
  task_related :: string

record deal =
  deal_id :: string
  deal_company :: string
  deal_stageId :: string
  deal_amount :: jsnumber
  deal_probability :: nat

record automation_step =
  waitMinutes :: int
  step_message :: string
  step_channel :: string

record automation =
  automation_name :: string
  active :: bool
  trigger :: string
  steps :: "automation_step list"

record settings =
  autoCreateLead :: bool
  autoCreateTask :: bool
  autoCreateDeal :: bool
  triggerMarketingAutomations :: bool

record session =
  leadId :: "string option"
  draft :: draft
  dealId :: "string option"
  peer :: "string option"
  automationsTriggered :: bool

type_synonym sessions = "string \<rightharpoonup> session"

record workflow_input =
  channelId :: string
  message_text :: string
  author :: string
  message_peer :: "string option"
  currentSettings :: settings
  storedLeadList :: "lead list"
  storedAutomationList :: "automation list"
  new_lead_suffix :: string
  new_task_suffix :: string
  new_deal_suffix :: string
  automation_task_suffix :: "nat \<Rightarrow> nat \<Rightarrow> string"

record outcome =
  nextDraft :: draft
  resolved_leadId :: "string option"
  createdLead :: bool
  createdTasks :: bool
  createdDeal :: bool
  triggeredAutomations :: bool
  leadPayload :: lead_payload
  leads_after :: "lead list"
  followTask :: "task option"
  newDeal :: "deal option"
  automationTasks :: "task list"

datatype workflow_result = Ignored | TypeError | Processed outcome

definition createId :: "string \<Rightarrow> string \<Rightarrow> string" where
  \<comment> \<open>\<open>`${prefix}-${...}`\<close>, the second argument being the random part\<close>
  "createId prefix suffix = prefix @ ''-'' @ suffix"

definition default_session :: session where
  \<comment> \<open>\<open>{ leadId: null, draft: {} }\<close>\<close>
  "default_session =
     \<lparr>leadId = None, draft = Map.empty, dealId = None, peer = None,
      automationsTriggered = False\<rparr>"

definition channelSession :: "sessions \<Rightarrow> string \<Rightarrow> session" where
  "channelSession ss c = (case ss c of None \<Rightarrow> default_session | Some s \<Rightarrow> s)"

definition channel_label :: "string \<Rightarrow> string" where
  \<comment> \<open>\<open>(channels.find((item) => item.id === channelId) ?? channels[0]).label\<close>\<close>
  "channel_label c =
     (case map_of [(''whatsapp'', ''WhatsApp''), (''instagram'', ''Instagram''),
                   (''facebook'', ''Facebook'')] c of
        Some l \<Rightarrow> l
      | None \<Rightarrow> ''WhatsApp'')"

definition fallbackName :: "string \<Rightarrow> string \<Rightarrow> string" where
  "fallbackName author_name c =
     (let normalizedAuthor = js_trim author_name
      in if normalizedAuthor \<noteq> [] \<and> normalizedAuthor \<noteq> ''Voc'' @ [CHR 0xEA]
         then normalizedAuthor
         else ''Lead '' @ channel_label c)"

definition trimmed_or :: "jsval \<Rightarrow> string \<Rightarrow> string option" where
  \<comment> \<open>\<open>v?.trim() ? v.trim() : fallback\<close>; \<open>None\<close> is the TypeError\<close>
  "trimmed_or v fallback =
     (case optional_trim v of
        None \<Rightarrow> None
      | Some None \<Rightarrow> Some fallback
      | Some (Some t) \<Rightarrow> Some (if t \<noteq> [] then t else fallback))"

definition email_matches :: "draft \<Rightarrow> lead \<Rightarrow> bool" where
  "email_matches d l =
     (toLowerCase (js_String (or_empty (lead_email l)))
        = toLowerCase (js_String (get_prop d ''email'')))"

definition phone_matches :: "draft \<Rightarrow> lead \<Rightarrow> bool" where
  "phone_matches d l =
     (let normalizedPhone = digits_only (js_String (get_prop d ''phone''))
      in digits_only (js_String (or_empty (lead_phone l))) \<noteq> []
         \<and> digits_only (js_String (or_empty (lead_phone l))) = normalizedPhone)"

definition resolve_by_email :: "draft \<Rightarrow> lead list \<Rightarrow> string option \<Rightarrow> string option" where
  "resolve_by_email d leads i =
     (if \<not> id_truthy i \<and> truthy (get_prop d ''email'')
      then (case find (email_matches d) leads of
              Some existing \<Rightarrow> Some (lead_id existing)
            | None \<Rightarrow> i)
      else i)"

definition resolve_by_phone :: "draft \<Rightarrow> lead list \<Rightarrow> string option \<Rightarrow> string option" where
  "resolve_by_phone d leads i =
     (if \<not> id_truthy i \<and> truthy (get_prop d ''phone'')
      then (case find (phone_matches d) leads of
              Some existing \<Rightarrow> Some (lead_id existing)
            | None \<Rightarrow> i)
      else i)"

definition resolve_leadId :: "session \<Rightarrow> draft \<Rightarrow> lead list \<Rightarrow> string option" where
  \<comment> \<open>the value of \<open>leadId\<close> before the create-or-update branch\<close>
  "resolve_leadId s d leads = resolve_by_phone d leads (resolve_by_email d leads (leadId s))"

definition stageSeed :: "session \<Rightarrow> lead list \<Rightarrow> string option" where
  "stageSeed s leads =
     (if id_truthy (leadId s)
      then (case find (\<lambda>l. Some (lead_id l) = leadId s) leads of
              Some l \<Rightarrow> lead_stageId l
            | None \<Rightarrow> None)
      else Some ''new'')"

definition apply_payload :: "lead_payload \<Rightarrow> lead \<Rightarrow> lead" where
  \<comment> \<open>\<open>{ ...lead, ...leadPayload }\<close>\<close>
  "apply_payload p l =
     l\<lparr>lead_name := payload_name p, lead_company := payload_company p,
       lead_email := payload_email p, lead_phone := payload_phone p,
       lead_origin := payload_origin p, lead_score := payload_score p,
       lead_stageId := Some (payload_stageId p)\<rparr>"

definition new_lead :: "string \<Rightarrow> lead_payload \<Rightarrow> lead" where
  \<comment> \<open>\<open>{ id: leadId, ...leadPayload }\<close>\<close>
  "new_lead i p =
     \<lparr>lead_id = i, lead_name = payload_name p, lead_company = payload_company p,
      lead_email = payload_email p, lead_phone = payload_phone p,
      lead_origin = payload_origin p, lead_score = payload_score p,
      lead_stageId = Some (payload_stageId p)\<rparr>"

definition activeAutomations :: "workflow_input \<Rightarrow> automation list" where
  "activeAutomations inp =
     (if triggerMarketingAutomations (currentSettings inp)
      then filter (\<lambda>a. active a \<and> trigger a = ''new_lead'') (storedAutomationList inp)
      else [])"

definition step_task :: "workflow_input \<Rightarrow> string \<Rightarrow> nat \<Rightarrow> automation \<Rightarrow> nat \<times> automation_step \<Rightarrow> task" where
  "step_task inp related_name a_index a indexed_step =
     (let index = fst indexed_step;
          step = snd indexed_step;
          minutes = nat (max 0 (waitMinutes step))
      in \<lparr>task_id = createId ''t'' (automation_task_suffix inp a_index index),
          task_title = AutomationTitle (automation_name a) (index + 1),
          task_note = (if js_trim (step_message step) \<noteq> []
                       then StepMessage (js_trim (step_message step))
                       else DefaultAutomationNote),
          task_type = (if step_channel step = ''email'' then ''email'' else ''follow_up''),
          task_dueLabel = (if minutes \<noteq> 0 then Minutes minutes else Agora),
          task_priority = ''medium'',
          task_related = related_name\<rparr>)"

definition build_automation_tasks :: "workflow_input \<Rightarrow> string \<Rightarrow> automation list \<Rightarrow> task list" where
  \<comment> \<open>the two nested \<open>forEach\<close> loops that fill \<open>automationTasks\<close>\<close>
  "build_automation_tasks inp related_name autos =
     concat (map (\<lambda>(a_index, a).
                    map (step_task inp related_name a_index a) (enumerate 0 (steps a)))
                 (enumerate 0 autos))"

definition runAgentWorkflow ::
  "(string \<Rightarrow> (string \<times> jsval) list) \<Rightarrow> (string \<Rightarrow> jsnumber) \<Rightarrow>
   workflow_input \<Rightarrow> sessions \<Rightarrow> workflow_result \<times> sessions" where
  "runAgentWorkflow agentExtractSignals string_to_number inp ss =
     (let trimmed = js_trim (message_text inp)
      in if trimmed = [] then (Ignored, ss)
         else
           let s = channelSession ss (channelId inp);
               signals = agentExtractSignals trimmed;
               d = agentMergeDraft (draft s) signals;
               nextScore = agentComputeLeadScore d;
               nextStageId = agentPickNextStageId (stageSeed s (storedLeadList inp)) d
           in case trimmed_or (get_prop d ''name'') (fallbackName (author inp) (channelId inp)) of
                None \<Rightarrow> (TypeError, ss)
              | Some leadName \<Rightarrow>
                 (case trimmed_or (get_prop d ''company'') [] of
                    None \<Rightarrow> (TypeError, ss)
                  | Some company \<Rightarrow>
                     let resolved = resolve_leadId s d (storedLeadList inp);
                         payload = \<lparr>payload_name = leadName, payload_company = company,
                                    payload_email = or_empty (get_prop d ''email''),
                                    payload_phone = or_empty (get_prop d ''phone''),
                                    payload_origin = channelId inp,
                                    payload_score = nextScore,
                                    payload_stageId = nextStageId\<rparr>;
                         creates = (\<not> id_truthy resolved \<and> autoCreateLead (currentSettings inp));
                         final_leadId = (if creates then Some (createId ''k'' (new_lead_suffix inp))
                                         else resolved);
                         leads' = (if creates
                                   then new_lead (createId ''k'' (new_lead_suffix inp)) payload
                                          # storedLeadList inp
                                   else if id_truthy resolved
                                   then map (\<lambda>l. if Some (lead_id l) = resolved
                                                   then apply_payload payload l else l)
                                            (storedLeadList inp)
                                   else storedLeadList inp);
                         follows = (creates \<and> id_truthy final_leadId
                                    \<and> autoCreateTask (currentSettings inp));
                         budget = js_Number string_to_number (get_prop d ''budget'');
                         eligibleForDeal = (id_truthy final_leadId
                                    \<and> autoCreateDeal (currentSettings inp)
                                    \<and> \<not> id_truthy (dealId s)
                                    \<and> truthy (get_prop d ''intent'')
                                    \<and> number_positive budget);
                         nextDealId = (if eligibleForDeal
                                       then Some (createId ''d'' (new_deal_suffix inp))
                                       else dealId s);
                         automationsAlreadyTriggered = automationsTriggered s;
                         tasks = (if creates \<and> id_truthy final_leadId
                                     \<and> activeAutomations inp \<noteq> []
                                     \<and> \<not> automationsAlreadyTriggered
                                  then build_automation_tasks inp leadName (activeAutomations inp)
                                  else []);
                         triggered = (tasks \<noteq> [])
                     in (Processed
                           \<lparr>nextDraft = d,
                            resolved_leadId = final_leadId,
                            createdLead = creates,
                            createdTasks = follows,
                            createdDeal = eligibleForDeal,
                            triggeredAutomations = triggered,
                            leadPayload = payload,
                            leads_after = leads',
                            followTask =
                              (if follows
                               then Some \<lparr>task_id = createId ''t'' (new_task_suffix inp),
                                          task_title = FollowUpTitle leadName,
                                          task_note = FollowUpNote,
                                          task_type = ''follow_up'',
                                          task_dueLabel = Hoje,
                                          task_priority = ''high'',
                                          task_related = leadName\<rparr>
                               else None),
                            newDeal =
                              (if eligibleForDeal
                               then Some \<lparr>deal_id = createId ''d'' (new_deal_suffix inp),
                                          deal_company = (if company \<noteq> [] then company else leadName),
                                          deal_stageId = ''discovery'',
                                          deal_amount = (case budget of NaN \<Rightarrow> Finite 0 | n \<Rightarrow> n),
                                          deal_probability = 25\<rparr>
                               else None),
                            automationTasks = tasks\<rparr>,
                         ss(channelId inp \<mapsto>
                              \<lparr>leadId = final_leadId,
                               draft = d,
                               dealId = nextDealId,
                               peer = (case message_peer inp of
                                         Some p \<Rightarrow> Some p
                                       | None \<Rightarrow> peer s),
                               automationsTriggered =
                                 (automationsAlreadyTriggered \<or> triggered)\<rparr>))))"

definition merged_draft ::
  "(string \<Rightarrow> (string \<times> jsval) list) \<Rightarrow> workflow_input \<Rightarrow> sessions \<Rightarrow> draft" where
  \<comment> \<open>the \<open>nextDraft\<close> of a call\<close>
  "merged_draft agentExtractSignals inp ss =
     agentMergeDraft (draft (channelSession ss (channelId inp)))
       (agentExtractSignals (js_trim (message_text inp)))"

fun run_messages ::
  "(string \<Rightarrow> (string \<times> jsval) list) \<Rightarrow> (string \<Rightarrow> jsnumber) \<Rightarrow>
   workflow_input list \<Rightarrow> sessions \<Rightarrow> workflow_result list \<times> sessions" where
  \<comment> \<open>the calls for a sequence of messages, each with the stores and settings of its
      moment; the sessions pass from one call to the next\<close>
  "run_messages agentExtractSignals string_to_number [] ss = ([], ss)"
| "run_messages agentExtractSignals string_to_number (inp # rest) ss =
     (let (r, ss') = runAgentWorkflow agentExtractSignals string_to_number inp ss;
          (rs, ss'') = run_messages agentExtractSignals string_to_number rest ss'
      in (r # rs, ss''))"

definition the_outcome :: "workflow_result \<Rightarrow> outcome option" where
  "the_outcome r = (case r of Processed out \<Rightarrow> Some out | _ \<Rightarrow> None)"

definition fired :: "workflow_result \<Rightarrow> bool" where
  \<comment> \<open>the call created automation tasks\<close>
  "fired r = (case r of Processed out \<Rightarrow> automationTasks out \<noteq> [] | _ \<Rightarrow> False)"

definition flag :: "sessions \<Rightarrow> string \<Rightarrow> bool" where
  \<comment> \<open>\<open>Boolean(channelSession.flags?.automationsTriggered)\<close>\<close>
  "flag ss c = automationsTriggered (channelSession ss c)"

definition firings :: "string \<Rightarrow> workflow_input list \<Rightarrow> workflow_result list \<Rightarrow> nat" where
  \<comment> \<open>how many calls for channel \<open>c\<close> created automation tasks\<close>
  "firings c inps rs = length (filter (\<lambda>(inp, r). channelId inp = c \<and> fired r) (zip inps rs))"

text \<open>Concrete inputs for the scenarios.\<close>

definition no_sessions :: sessions where
  "no_sessions = Map.empty"

definition all_enabled :: settings where
  "all_enabled =
     \<lparr>autoCreateLead = True, autoCreateTask = True, autoCreateDeal = True,
      triggerMarketingAutomations = True\<rparr>"

definition no_lead_creation :: settings where
  "no_lead_creation = all_enabled\<lparr>autoCreateLead := False\<rparr>"

definition welcome_automation :: automation where
  "welcome_automation =
     \<lparr>automation_name = ''Boas-vindas'', active = True, trigger = ''new_lead'',
      steps = [\<lparr>waitMinutes = 0, step_message = ''Ola'', step_channel = ''whatsapp''\<rparr>,
               \<lparr>waitMinutes = 30, step_message = [], step_channel = ''email''\<rparr>]\<rparr>"

definition numbered_suffix :: "nat \<Rightarrow> nat \<Rightarrow> string" where
  "numbered_suffix a i = digits_of_nat a @ ''.'' @ digits_of_nat i"

definition first_message :: workflow_input where
  "first_message =
     \<lparr>channelId = ''whatsapp'', message_text = ''Meu nome e Ana'', author = ''Ana'',
      message_peer = Some ''5511988887777'', currentSettings = all_enabled,
      storedLeadList = [], storedAutomationList = [welcome_automation],
      new_lead_suffix = ''a1'', new_task_suffix = ''a2'', new_deal_suffix = ''a3'',
      automation_task_suffix = numbered_suffix\<rparr>"

definition second_message :: workflow_input where
  "second_message =
     first_message\<lparr>message_text := ''quero comprar'',
       new_lead_suffix := ''b1'', new_task_suffix := ''b2'', new_deal_suffix := ''b3''\<rparr>"

definition unmatched_message :: workflow_input where
  \<comment> \<open>a first message while the creation of leads is switched off\<close>
  "unmatched_message = first_message\<lparr>currentSettings := no_lead_creation\<rparr>"

definition name_only :: "string \<Rightarrow> (string \<times> jsval) list" where
  \<comment> \<open>stands for the extractor on texts that only name the sender\<close>
  "name_only content = [(''name'', Str ''Ana'')]"

definition extension_only :: "string \<Rightarrow> (string \<times> jsval) list" where
  \<comment> \<open>a signal set whose phone has no digit\<close>
  "extension_only content = [(''phone'', Str ''ramal'')]"

definition not_a_number :: "string \<Rightarrow> jsnumber" where
  "not_a_number content = NaN"

definition lead_without_phone :: lead where
  "lead_without_phone =
     \<lparr>lead_id = ''k-old'', lead_name = ''Bia'', lead_company = [], lead_email = Undefined,
      lead_phone = Str [], lead_origin = ''manual'', lead_score = 40,
      lead_stageId = Some ''new''\<rparr>"

definition extension_message :: workflow_input where
  "extension_message = first_message\<lparr>storedLeadList := [lead_without_phone]\<rparr>"

definition email_only :: "string \<Rightarrow> (string \<times> jsval) list" where
  \<comment> \<open>stands for the extractor on a text that only gives an email address\<close>
  "email_only content = [(''email'', Str ''ana@example.com'')]"

definition lead_ana :: lead where
  "lead_ana =
     \<lparr>lead_id = ''k-ana'', lead_name = ''Ana'', lead_company = [],
      lead_email = Str ''Ana@Example.com'', lead_phone = Undefined, lead_origin = ''manual'',
      lead_score = 55, lead_stageId = Some ''proposal''\<rparr>"

definition email_message :: workflow_input where
  "email_message = first_message\<lparr>storedLeadList := [lead_without_phone, lead_ana]\<rparr>"

definition sessions_after_first :: sessions where
  \<comment> \<open>the sessions the call for the first message leaves\<close>
  "sessions_after_first = snd (runAgentWorkflow name_only not_a_number first_message no_sessions)"

definition stale_lead :: lead where
  \<comment> \<open>the lead of the first message as stored, with a score out of range\<close>
  "stale_lead =
     \<lparr>lead_id = ''k-a1'', lead_name = ''Ana'', lead_company = [], lead_email = Str [],
      lead_phone = Str [], lead_origin = ''whatsapp'', lead_score = 500,
      lead_stageId = Some ''contacted''\<rparr>"

definition update_message :: workflow_input where
  "update_message = second_message\<lparr>storedLeadList := [lead_without_phone, stale_lead]\<rparr>"

section \<open>Properties of the event log\<close>

lemma keep_last_append: "keep_last n (keep_last n xs @ ys) = keep_last n (xs @ ys)"
proof -
  have "length xs + length ys - (length xs - n + n) + (length xs - n) = length xs + length ys - n"
    by arith
  then show ?thesis
    by (simp add: keep_last_def)
qed

lemma pushEvent_keep_last:
  "pushEvent st e =
     (\<lparr>seq = Suc (eventSeq st), payload = e\<rparr>,
      \<lparr>eventSeq = Suc (eventSeq st),
       events = keep_last MAX_EVENTS (events st @ [\<lparr>seq = Suc (eventSeq st), payload = e\<rparr>])\<rparr>)"
  by (simp add: pushEvent_def keep_last_def Let_def)

lemma length_numbered: "length (numbered k ps) = length ps"
  by (induction ps arbitrary: k) simp_all

lemma map_seq_numbered: "map seq (numbered k ps) = [Suc k ..< Suc k + length ps]"
  by (induction ps arbitrary: k) (simp_all add: upt_conv_Cons del: upt_Suc)

lemma seq_numbered_pos: "e \<in> set (numbered k ps) \<Longrightarrow> k < seq e"
proof (induction ps arbitrary: k)
  case Nil
  then show ?case by simp
next
  case (Cons p ps)
  then show ?case using Suc_lessD by fastforce
qed

lemma admit_all_general:
  "admit_all st ps =
     (numbered (eventSeq st) ps,
      if ps = [] then st
      else \<lparr>eventSeq = eventSeq st + length ps,
            events = keep_last MAX_EVENTS (events st @ numbered (eventSeq st) ps)\<rparr>)"
proof (induction ps arbitrary: st)
  case Nil
  show ?case by simp
next
  case (Cons p ps)
  show ?case
    by (cases "ps = []") (simp_all add: pushEvent_keep_last Cons.IH keep_last_append)
qed

text \<open>
  C1. Starting from the empty log, the \<open>k\<close>-th call of \<open>pushEvent\<close> returns the
  event numbered \<open>k\<close>: numbers start at 1 and grow by exactly 1 per admitted event.
  The counter equals the number of admitted events, so it is never reset and no number
  is issued twice, also after eviction. The log holds the last \<open>min n 500\<close> admitted
  events, oldest evicted first, hence never more than 500. One more call from any
  state issues the number after the counter and leaves at most 500 events. After 501
  calls the log has 500 events, \<open>readAfter 0\<close> returns the events numbered 2 to 501
  (the last 500) and the cursor 501.
\<close>

theorem event_log_contract:
  "fst (admit_all initial_log ps) = numbered 0 ps
   \<and> map seq (fst (admit_all initial_log ps)) = [1 ..< Suc (length ps)]
   \<and> eventSeq (snd (admit_all initial_log ps)) = length ps
   \<and> events (snd (admit_all initial_log ps)) = drop (length ps - 500) (numbered 0 ps)
   \<and> length (events (snd (admit_all initial_log ps))) = min (length ps) 500
   \<and> seq (fst (pushEvent st e)) = eventSeq st + 1
   \<and> eventSeq (snd (pushEvent st e)) = eventSeq st + 1
   \<and> length (events (snd (pushEvent st e))) \<le> 500
   \<and> (length ps = 501 \<longrightarrow>
        length (events (snd (admit_all initial_log ps))) = 500
        \<and> readAfter (snd (admit_all initial_log ps)) 0 = (tl (numbered 0 ps), 501)
        \<and> map seq (fst (readAfter (snd (admit_all initial_log ps)) 0)) = [2 ..< 502])"
proof -
  let ?run = "admit_all initial_log ps"
  have run: "?run = (numbered 0 ps,
      if ps = [] then initial_log
      else \<lparr>eventSeq = length ps, events = keep_last MAX_EVENTS (numbered 0 ps)\<rparr>)"
    using admit_all_general [of initial_log ps] by (simp add: initial_log_def)
  have init: "events (initial_log :: 'a event_log) = []" "eventSeq (initial_log :: 'a event_log) = 0"
    by (simp_all add: initial_log_def)
  have evs: "events (snd ?run) = drop (length ps - 500) (numbered 0 ps)"
    by (cases "ps = []")
       (simp_all add: run init keep_last_def MAX_EVENTS_def length_numbered)
  have cnt: "eventSeq (snd ?run) = length ps"
    by (cases "ps = []") (simp_all add: run init)
  have len: "length (events (snd ?run)) = min (length ps) 500"
    by (simp add: evs length_numbered)
  have seqs: "map seq (fst ?run) = [1 ..< Suc (length ps)]"
    using map_seq_numbered [of 0 ps] by (simp add: run)
  have step: "seq (fst (pushEvent st e)) = eventSeq st + 1
      \<and> eventSeq (snd (pushEvent st e)) = eventSeq st + 1
      \<and> length (events (snd (pushEvent st e))) \<le> 500"
    by (simp add: pushEvent_keep_last keep_last_def MAX_EVENTS_def)
  have scenario: "length (events (snd ?run)) = 500
      \<and> readAfter (snd ?run) 0 = (tl (numbered 0 ps), 501)
      \<and> map seq (fst (readAfter (snd ?run) 0)) = [2 ..< 502]"
    if n: "length ps = 501"
  proof -
    have tl_evs: "events (snd ?run) = tl (numbered 0 ps)"
      by (simp add: evs n drop_Suc)
    have "\<forall>e \<in> set (tl (numbered 0 ps)). 0 < seq e"
      using seq_numbered_pos [of _ 0 ps] by (cases "numbered 0 ps") auto
    then have keep: "filter (\<lambda>event. 0 < seq event) (tl (numbered 0 ps)) = tl (numbered 0 ps)"
      by simp
    have rd: "readAfter (snd ?run) 0 = (tl (numbered 0 ps), 501)"
      by (simp add: readAfter_def tl_evs keep cnt n)
    have "map seq (tl (numbered 0 ps)) = tl [1 ..< 502]"
      using map_seq_numbered [of 0 ps] by (simp add: n map_tl del: upt_rec_numeral)
    also have "\<dots> = [2 ..< 502]"
      by (subst upt_conv_Cons) (simp_all add: numeral_2_eq_2 del: upt_rec_numeral)
    finally show ?thesis
      by (simp add: rd len n del: upt_rec_numeral)
  qed
  have fst_run: "fst ?run = numbered 0 ps"
    by (simp add: run)
  from fst_run seqs cnt evs len step scenario show ?thesis
    by blast
qed

theorem event_log_contract_witness:
  "length (replicate 501 ()) = 501
   \<and> length (events (snd (admit_all initial_log (replicate 501 ())))) = 500
   \<and> readAfter (snd (admit_all initial_log (replicate 501 ()))) 0
       = (tl (numbered 0 (replicate 501 ())), 501)
   \<and> map seq (fst (readAfter (snd (admit_all initial_log (replicate 501 ()))) 0)) = [2 ..< 502]"
proof -
  have n: "length (replicate 501 ()) = 501"
    by simp
  from event_log_contract [of "replicate 501 ()" initial_log "()"] n show ?thesis
    by blast
qed

section \<open>Properties of the gateway client\<close>

lemma try_candidates_pass:
  "\<forall>p \<in> set pre. passes_on fetch args p \<Longrightarrow>
   \<exists>le'. try_candidates fetch parse args le (pre @ rest)
         = (fst (try_candidates fetch parse args le' rest),
            pre @ snd (try_candidates fetch parse args le' rest))
        \<and> (pre = [] \<longrightarrow> le' = le)"
proof (induction pre arbitrary: le)
  case Nil
  show ?case by simp
next
  case (Cons p pre)
  have rest: "\<forall>q \<in> set pre. passes_on fetch args q"
    using Cons.prems by simp
  have p: "passes_on fetch args p"
    using Cons.prems by simp
  show ?case
  proof (cases "fetch (request_for args p)")
    case (Response st content)
    with p have st: "st = 404"
      by (simp add: passes_on_def)
    from Cons.IH [OF rest] obtain le' where
      "try_candidates fetch parse args
         (Some \<lparr>ok = False, status = 404, path = Some p,
                data = Some (response_data parse content), error = None\<rparr>) (pre @ rest)
       = (fst (try_candidates fetch parse args le' rest),
          pre @ snd (try_candidates fetch parse args le' rest))"
      by blast
    then show ?thesis
      using Response st by (auto simp: attempted_def)
  next
    case (Rejected msg)
    from Cons.IH [OF rest] obtain le' where
      "try_candidates fetch parse args (Some (rejected_result p msg)) (pre @ rest)
       = (fst (try_candidates fetch parse args le' rest),
          pre @ snd (try_candidates fetch parse args le' rest))"
      by blast
    then show ?thesis
      using Rejected by (auto simp: attempted_def)
  qed
qed

lemma answer_404_passes: "answer fetch args p = Some 404 \<Longrightarrow> passes_on fetch args p"
  by (auto simp: answer_def passes_on_def split: fetch_outcome.splits)

lemma try_candidates_decided:
  assumes "answer fetch args c = Some s" and "s \<noteq> 404"
  shows "ok (fst (try_candidates fetch parse args le (c # post))) = (200 \<le> s \<and> s \<le> 299)"
    and "status (fst (try_candidates fetch parse args le (c # post))) = s"
    and "path (fst (try_candidates fetch parse args le (c # post))) = Some c"
    and "snd (try_candidates fetch parse args le (c # post)) = [c]"
  using assms by (auto simp: answer_def Let_def split: fetch_outcome.splits)

lemma try_candidates_last_404:
  assumes "answer fetch args c = Some 404"
  shows "ok (fst (try_candidates fetch parse args le [c])) = False"
    and "status (fst (try_candidates fetch parse args le [c])) = 404"
    and "path (fst (try_candidates fetch parse args le [c])) = Some c"
    and "snd (try_candidates fetch parse args le [c]) = [c]"
  using assms by (auto simp: answer_def Let_def attempted_def split: fetch_outcome.splits)

text \<open>
  C6. With a usable base URL, let the candidate paths be \<open>pre @ c # post\<close>, every
  candidate of \<open>pre\<close> answered with 404, and \<open>c\<close> answered with status \<open>s\<close>. Then
  the requests made are exactly those for \<open>pre\<close> and then \<open>c\<close>, in the order of the
  list, as long as \<open>s\<close> is not 404: a 2xx status gives a successful result whose path is
  \<open>c\<close>, any other status gives the failure of \<open>c\<close> with that status, and no
  candidate of \<open>post\<close> is requested. If \<open>c\<close> is the last candidate and also answers 404,
  every candidate was requested in order and the result is the 404 of \<open>c\<close>.
\<close>

theorem gateway_status_fallback:
  assumes "normalizeBaseUrl (baseUrl args) \<noteq> []"
    and "paths args = pre @ c # post"
    and "\<forall>p \<in> set pre. answer fetch args p = Some 404"
    and "answer fetch args c = Some s"
  shows "(200 \<le> s \<and> s \<le> 299 \<longrightarrow>
            ok (fst (evolutionTryRequest fetch parse args))
            \<and> status (fst (evolutionTryRequest fetch parse args)) = s
            \<and> path (fst (evolutionTryRequest fetch parse args)) = Some c
            \<and> snd (evolutionTryRequest fetch parse args) = pre @ [c])
       \<and> (\<not> (200 \<le> s \<and> s \<le> 299) \<and> s \<noteq> 404 \<longrightarrow>
            \<not> ok (fst (evolutionTryRequest fetch parse args))
            \<and> status (fst (evolutionTryRequest fetch parse args)) = s
            \<and> path (fst (evolutionTryRequest fetch parse args)) = Some c
            \<and> snd (evolutionTryRequest fetch parse args) = pre @ [c])
       \<and> (s = 404 \<and> post = [] \<longrightarrow>
            \<not> ok (fst (evolutionTryRequest fetch parse args))
            \<and> status (fst (evolutionTryRequest fetch parse args)) = 404
            \<and> path (fst (evolutionTryRequest fetch parse args)) = Some c
            \<and> snd (evolutionTryRequest fetch parse args) = paths args)"
proof -
  let ?run = "evolutionTryRequest fetch parse args"
  have "\<forall>p \<in> set pre. passes_on fetch args p"
    using assms(3) answer_404_passes by blast
  from try_candidates_pass [OF this, of parse None "c # post"] obtain le' where
    "try_candidates fetch parse args None (pre @ c # post)
       = (fst (try_candidates fetch parse args le' (c # post)),
          pre @ snd (try_candidates fetch parse args le' (c # post)))"
    by blast
  then have run: "?run = (fst (try_candidates fetch parse args le' (c # post)),
                          pre @ snd (try_candidates fetch parse args le' (c # post)))"
    using assms(1,2) by (simp add: evolutionTryRequest_def)
  have decided: "ok (fst ?run) = (200 \<le> s \<and> s \<le> 299) \<and> status (fst ?run) = s
      \<and> path (fst ?run) = Some c \<and> snd ?run = pre @ [c]"
    if "s \<noteq> 404"
    using try_candidates_decided [OF assms(4) that, of parse le' post] by (simp add: run)
  have last: "\<not> ok (fst ?run) \<and> status (fst ?run) = 404
      \<and> path (fst ?run) = Some c \<and> snd ?run = paths args"
    if "s = 404" and "post = []"
    using try_candidates_last_404 [of fetch args c parse le'] assms(2,4) that
    by (simp add: run)
  from decided last show ?thesis
    by auto
qed

lemma scenario_base: "normalizeBaseUrl (baseUrl scenario_args) = ''https://evo.example''"
  by (simp add: scenario_args_def normalizeBaseUrl_def js_trim_def is_ws_def)

lemma scenario_urls:
  "url (request_for scenario_args ''/A'') = ''https://evo.example/A''"
  "url (request_for scenario_args ''B'') = ''https://evo.example/B''"
  "url (request_for scenario_args ''/C'') = ''https://evo.example/C''"
  by (simp_all add: request_for_def scenario_base candidate_url_def startsWith_def)

theorem gateway_status_fallback_witness:
  "normalizeBaseUrl (baseUrl scenario_args) \<noteq> []
   \<and> paths scenario_args = [''/A'', ''B''] @ ''/C'' # []
   \<and> answer fetch_only_C scenario_args ''/A'' = Some 404
   \<and> answer fetch_only_C scenario_args ''B'' = Some 404
   \<and> answer fetch_only_C scenario_args ''/C'' = Some 200
   \<and> ok (fst (evolutionTryRequest fetch_only_C parse_empty_object scenario_args))
   \<and> path (fst (evolutionTryRequest fetch_only_C parse_empty_object scenario_args)) = Some ''/C''
   \<and> snd (evolutionTryRequest fetch_only_C parse_empty_object scenario_args)
       = [''/A'', ''B'', ''/C'']
   \<and> answer fetch_A_500 scenario_args ''/A'' = Some 500
   \<and> \<not> ok (fst (evolutionTryRequest fetch_A_500 parse_empty_object scenario_args))
   \<and> status (fst (evolutionTryRequest fetch_A_500 parse_empty_object scenario_args)) = 500
   \<and> path (fst (evolutionTryRequest fetch_A_500 parse_empty_object scenario_args)) = Some ''/A''
   \<and> snd (evolutionTryRequest fetch_A_500 parse_empty_object scenario_args) = [''/A'']"
proof -
  have base: "normalizeBaseUrl (baseUrl scenario_args) \<noteq> []"
    by (simp add: scenario_base)
  have split1: "paths scenario_args = [''/A'', ''B''] @ ''/C'' # []"
    and split2: "paths scenario_args = [] @ ''/A'' # [''B'', ''/C'']"
    by (simp_all add: scenario_args_def)
  have nf: "\<forall>p \<in> set [''/A'', ''B'']. answer fetch_only_C scenario_args p = Some 404"
    by (simp add: answer_def fetch_only_C_def scenario_urls)
  have c: "answer fetch_only_C scenario_args ''/C'' = Some 200"
    by (simp add: answer_def fetch_only_C_def scenario_urls)
  have none: "\<forall>p \<in> set []. answer fetch_A_500 scenario_args p = Some 404"
    by simp
  have a: "answer fetch_A_500 scenario_args ''/A'' = Some 500"
    by (simp add: answer_def fetch_A_500_def scenario_urls)
  from gateway_status_fallback [OF base split1 nf c, of parse_empty_object]
       gateway_status_fallback [OF base split2 none a, of parse_empty_object]
       base split1 nf c a
  show ?thesis
    by simp
qed

lemma try_candidates_requests_head:
  "\<exists>t. snd (try_candidates fetch parse args le (n # rest)) = n # t"
  by (auto simp: attempted_def Let_def split: fetch_outcome.splits)

text \<open>
  C7, as stated, fails: where the request for the first candidate throws and the
  second candidate answers 200, the dispatch goes on to the second candidate and
  returns its success; the transport failure is not the result.
\<close>

theorem gateway_transport_failure_counterexample:
  "fetch_A_down (request_for scenario_args ''/A'') = Rejected ''fetch failed''
   \<and> ok (fst (evolutionTryRequest fetch_A_down parse_empty_object scenario_args))
   \<and> path (fst (evolutionTryRequest fetch_A_down parse_empty_object scenario_args)) = Some ''B''
   \<and> snd (evolutionTryRequest fetch_A_down parse_empty_object scenario_args) = [''/A'', ''B'']"
  by (simp add: evolutionTryRequest_def scenario_base fetch_A_down_def scenario_urls
        attempted_def)
     (simp add: scenario_args_def fetch_A_down_def scenario_urls [unfolded scenario_args_def]
        attempted_def)

text \<open>
  C7, amended. With a usable base URL, let the candidate paths be \<open>pre @ c # post\<close>,
  every candidate of \<open>pre\<close> answered with 404 or failed in transport, and the request
  for \<open>c\<close> fail in transport. The failure is recorded as the last error and the
  dispatch continues with \<open>post\<close> as it does after a 404: the result is the one the
  loop computes for \<open>post\<close> with that last error. So the failure is the final result
  when \<open>c\<close> is the last candidate, and otherwise the next candidate is requested.
\<close>

theorem gateway_transport_failure_advances:
  assumes "normalizeBaseUrl (baseUrl args) \<noteq> []"
    and "paths args = pre @ c # post"
    and "\<forall>p \<in> set pre. passes_on fetch args p"
    and "fetch (request_for args c) = Rejected msg"
  shows "evolutionTryRequest fetch parse args
           = (fst (try_candidates fetch parse args (Some (rejected_result c msg)) post),
              pre @ c # snd (try_candidates fetch parse args (Some (rejected_result c msg)) post))
       \<and> (post = [] \<longrightarrow>
            evolutionTryRequest fetch parse args = (rejected_result c msg, paths args))
       \<and> (post \<noteq> [] \<longrightarrow>
            take (length pre + 2) (snd (evolutionTryRequest fetch parse args))
              = pre @ [c, hd post])"
proof -
  let ?run = "evolutionTryRequest fetch parse args"
  let ?cont = "try_candidates fetch parse args (Some (rejected_result c msg)) post"
  from try_candidates_pass [OF assms(3), of parse None "c # post"] obtain le' where
    "try_candidates fetch parse args None (pre @ c # post)
       = (fst (try_candidates fetch parse args le' (c # post)),
          pre @ snd (try_candidates fetch parse args le' (c # post)))"
    by blast
  then have run: "?run = (fst ?cont, pre @ c # snd ?cont)"
    using assms(1,2,4) by (simp add: evolutionTryRequest_def attempted_def)
  have last: "?run = (rejected_result c msg, paths args)" if "post = []"
    using that assms(2) by (simp add: run)
  have nxt: "take (length pre + 2) (snd ?run) = pre @ [c, hd post]" if "post \<noteq> []"
  proof -
    from that obtain n rest where post: "post = n # rest"
      by (cases post) auto
    from try_candidates_requests_head [of fetch parse args "Some (rejected_result c msg)" n rest]
    obtain t where "snd ?cont = n # t"
      unfolding post by blast
    then show ?thesis
      by (simp add: run post)
  qed
  from run last nxt show ?thesis
    by blast
qed

theorem gateway_transport_failure_advances_witness:
  "normalizeBaseUrl (baseUrl scenario_args) \<noteq> []
   \<and> paths scenario_args = [] @ ''/A'' # [''B'', ''/C'']
   \<and> fetch_A_down (request_for scenario_args ''/A'') = Rejected ''fetch failed''
   \<and> take (length ([] :: string list) + 2)
        (snd (evolutionTryRequest fetch_A_down parse_empty_object scenario_args))
       = [] @ [''/A'', hd [''B'', ''/C'']]"
proof -
  have base: "normalizeBaseUrl (baseUrl scenario_args) \<noteq> []"
    by (simp add: scenario_base)
  have split: "paths scenario_args = [] @ ''/A'' # [''B'', ''/C'']"
    by (simp add: scenario_args_def)
  have none: "\<forall>p \<in> set []. passes_on fetch_A_down scenario_args p"
    by simp
  have a: "fetch_A_down (request_for scenario_args ''/A'') = Rejected ''fetch failed''"
    by (simp add: fetch_A_down_def scenario_urls)
  from gateway_transport_failure_advances [OF base split none a, of parse_empty_object]
       base split a
  show ?thesis
    by blast
qed

section \<open>Properties of the phone normalisation\<close>

lemma phone_trimmed_digits: "digits_only (phone_trimmed raw) = phone_trimmed raw"
proof -
  have "\<forall>c \<in> set (phone_trimmed raw). is_digit c"
    by (auto simp: phone_trimmed_def digits_only_def Let_def dest: in_set_dropD)
  then show ?thesis
    by (simp add: digits_only_def)
qed

lemma digits_only_take: "digits_only t = t \<Longrightarrow> digits_only (take n t) = take n t"
  by (metis digits_only_def filter_id_conv in_set_takeD)

lemma digits_only_drop: "digits_only t = t \<Longrightarrow> digits_only (drop n t) = drop n t"
  by (metis digits_only_def filter_id_conv in_set_dropD)

lemma digits_only_append: "digits_only (a @ b) = digits_only a @ digits_only b"
  by (simp add: digits_only_def)

lemma digits_only_punct:
  "digits_only ''('' = []" "digits_only '') '' = []" "digits_only ''-'' = []"
  by (simp_all add: digits_only_def is_digit_def)

lemma digits_only_display:
  assumes "digits_only t = t"
  shows "digits_only (''('' @ take 2 t @ '') '' @ take k (drop 2 t) @ ''-'' @ drop (2 + k) t) = t"
proof -
  have "digits_only (''('' @ take 2 t @ '') '' @ take k (drop 2 t) @ ''-'' @ drop (2 + k) t)
        = take 2 t @ take k (drop 2 t) @ drop (2 + k) t"
    using assms
    by (simp only: digits_only_append digits_only_punct digits_only_take digits_only_drop
          append_Nil)
  also have "\<dots> = take 2 t @ drop 2 t"
    by (metis add.commute append_take_drop_id drop_drop)
  finally show ?thesis
    by simp
qed

text \<open>
  C8, as stated, fails: the twelve digits of \<open>+55 11 4444-5555\<close> begin with 55 and
  the remainder has ten digits, fewer than eleven, yet the leading 55 is stripped.
\<close>

theorem phone_country_code_counterexample:
  "startsWith (digits_only ''+55 11 4444-5555'') ''55''
   \<and> length (drop 2 (digits_only ''+55 11 4444-5555'')) = 10
   \<and> phone_trimmed ''+55 11 4444-5555'' = ''1144445555''
   \<and> agentNormalizePhone ''+55 11 4444-5555'' = ''(11) 4444-5555''"
  by (simp add: agentNormalizePhone_def phone_trimmed_def digits_only_def is_digit_def
        startsWith_def)

text \<open>
  C8, amended. For every raw token whose digits-only form begins with 55, the leading
  55 is stripped if and only if the digits-only form has more than 11 digits, that is,
  if and only if the remainder has 10 or more digits; otherwise the digits are kept
  whole. The decision reads nothing but the digit count. The digits-only form of the
  normalised phone, which the matching uses, is the stripped digit string when that
  has 10 or 11 digits, and the digits of the raw token otherwise.
\<close>

theorem phone_country_code_rule:
  assumes "startsWith (digits_only raw) ''55''"
  shows "(phone_trimmed raw = drop 2 (digits_only raw)) = (10 \<le> length (drop 2 (digits_only raw)))
       \<and> (phone_trimmed raw = digits_only raw) = (length (drop 2 (digits_only raw)) < 10)
       \<and> digits_only (agentNormalizePhone raw)
           = (if length (phone_trimmed raw) = 11 \<or> length (phone_trimmed raw) = 10
              then phone_trimmed raw else digits_only raw)"
proof -
  let ?d = "digits_only raw"
  from assms have "take (length ''55'') ?d = ''55''"
    unfolding startsWith_def .
  then have "length (take (length ''55'') ?d) = length ''55''"
    by (rule arg_cong)
  then have two: "2 \<le> length ?d"
    by simp
  have differ: "drop 2 ?d \<noteq> ?d"
  proof
    assume "drop 2 ?d = ?d"
    then have "length (drop 2 ?d) = length ?d"
      by (rule arg_cong)
    with two show False
      by simp
  qed
  have strip: "phone_trimmed raw = (if 11 < length ?d then drop 2 ?d else ?d)"
    using assms by (simp add: phone_trimmed_def Let_def)
  have count: "(11 < length ?d) = (10 \<le> length (drop 2 ?d))"
    using two by auto
  have shown: "digits_only (agentNormalizePhone raw)
           = (if length (phone_trimmed raw) = 11 \<or> length (phone_trimmed raw) = 10
              then phone_trimmed raw else digits_only raw)"
    using digits_only_display [where t = "phone_trimmed raw" and k = 5, OF phone_trimmed_digits]
          digits_only_display [where t = "phone_trimmed raw" and k = 4, OF phone_trimmed_digits]
    by (simp add: agentNormalizePhone_def Let_def)
  from strip count differ shown show ?thesis
    by (auto simp: not_le)
qed

theorem phone_country_code_rule_witness:
  "startsWith (digits_only ''55 (11) 98888-7777'') ''55''
   \<and> phone_trimmed ''55 (11) 98888-7777'' = drop 2 (digits_only ''55 (11) 98888-7777'')
   \<and> 10 \<le> length (drop 2 (digits_only ''55 (11) 98888-7777''))
   \<and> digits_only (agentNormalizePhone ''55 (11) 98888-7777'') = ''11988887777''"
proof -
  have h: "startsWith (digits_only ''55 (11) 98888-7777'') ''55''"
    by (simp add: startsWith_def digits_only_def is_digit_def)
  have v: "phone_trimmed ''55 (11) 98888-7777'' = ''11988887777''"
    by (simp add: phone_trimmed_def startsWith_def digits_only_def is_digit_def)
  from phone_country_code_rule [OF h] h v show ?thesis
    by (simp add: digits_only_def is_digit_def)
qed

section \<open>Properties of the stage policy, the score and the merger\<close>

lemma rank_or_zero_stage: "rank_or_zero (Some (stage_id s)) = RankNumber (stage_rank s)"
  by (cases s) (simp_all add: rank_or_zero_def rank_def)

lemma desired_stage_id_eq: "desired_stage_id d = stage_id (desiredStage d)"
  by (simp add: desired_stage_id_def desiredStage_def holds_def)

lemma pick_from_stage:
  "agentPickNextStageId (Some (stage_id c)) d = stage_id (max_stage c (desiredStage d))"
  by (simp add: agentPickNextStageId_def Let_def desired_stage_id_eq rank_or_zero_stage
        max_stage_def)

lemma pick_from_absent: "agentPickNextStageId None d = stage_id (desiredStage d)"
proof -
  have "rank_or_zero None = RankNumber 0"
    by (simp add: rank_or_zero_def)
  moreover have "0 < stage_rank (desiredStage d)"
    by (simp add: desiredStage_def)
  ultimately show ?thesis
    by (simp add: agentPickNextStageId_def Let_def desired_stage_id_eq rank_or_zero_stage)
qed

lemma recorded_if_holds: "holds d k \<Longrightarrow> recorded d k"
  by (auto simp: holds_def recorded_def)

text \<open>
  C3. For each of the six stages as the current stage and every draft, the result is
  the later of the current stage and the desired stage; with no current stage it is
  the desired stage. The desired stage is \<open>qualified\<close> exactly when the draft holds
  intent and budget and (location or property type), and \<open>contacted\<close> otherwise. So
  the result is never earlier than the current stage. Where every one of these four
  facts that the draft records is a usable value, holding a fact and recording it are
  the same.
\<close>

theorem stage_policy:
  "agentPickNextStageId (Some (stage_id current)) d
     = stage_id (max_stage current (desiredStage d))
   \<and> agentPickNextStageId None d = stage_id (desiredStage d)
   \<and> desiredStage d
       = (if holds d ''intent'' \<and> holds d ''budget''
             \<and> (holds d ''location'' \<or> holds d ''propertyType'')
          then Qualified else Contacted)
   \<and> stage_rank current \<le> stage_rank (max_stage current (desiredStage d))
   \<and> stage_rank (desiredStage d) \<le> stage_rank (max_stage current (desiredStage d))
   \<and> ((\<forall>k \<in> set [''intent'', ''budget'', ''location'', ''propertyType''].
          recorded d k \<longrightarrow> holds d k) \<longrightarrow>
        (desiredStage d = Qualified)
          = (recorded d ''intent'' \<and> recorded d ''budget''
             \<and> (recorded d ''location'' \<or> recorded d ''propertyType'')))"
proof -
  have same: "(desiredStage d = Qualified)
          = (recorded d ''intent'' \<and> recorded d ''budget''
             \<and> (recorded d ''location'' \<or> recorded d ''propertyType''))"
    if "\<forall>k \<in> set [''intent'', ''budget'', ''location'', ''propertyType'']. recorded d k \<longrightarrow> holds d k"
  proof -
    from that have "holds d k = recorded d k"
      if "k \<in> set [''intent'', ''budget'', ''location'', ''propertyType'']" for k
      using that recorded_if_holds by blast
    then have "holds d ''intent'' = recorded d ''intent''"
      and "holds d ''budget'' = recorded d ''budget''"
      and "holds d ''location'' = recorded d ''location''"
      and "holds d ''propertyType'' = recorded d ''propertyType''"
      by simp_all
    then show ?thesis
      by (simp add: desiredStage_def)
  qed
  have order: "stage_rank current \<le> stage_rank (max_stage current (desiredStage d))"
    "stage_rank (desiredStage d) \<le> stage_rank (max_stage current (desiredStage d))"
    by (simp_all add: max_stage_def)
  have desired: "desiredStage d
       = (if holds d ''intent'' \<and> holds d ''budget''
             \<and> (holds d ''location'' \<or> holds d ''propertyType'')
          then Qualified else Contacted)"
    by (simp add: desiredStage_def)
  from pick_from_stage [of current d] pick_from_absent [of d] desired order same
  show ?thesis
    by blast
qed

lemma qualified_draft_props:
  "get_prop qualified_draft ''intent'' = Str ''buy''"
  "get_prop qualified_draft ''budget'' = Num (Finite 500000)"
  "get_prop qualified_draft ''location'' = Str ''Pinheiros''"
  "get_prop qualified_draft ''propertyType'' = Undefined"
  by (simp_all add: qualified_draft_def get_prop_def)

theorem stage_policy_witness:
  "holds qualified_draft ''intent'' \<and> holds qualified_draft ''budget''
   \<and> holds qualified_draft ''location''
   \<and> recorded qualified_draft ''intent'' \<and> recorded qualified_draft ''budget''
   \<and> recorded qualified_draft ''location''
   \<and> desiredStage qualified_draft = Qualified
   \<and> agentPickNextStageId (Some (stage_id Contacted)) qualified_draft = ''qualified''
   \<and> agentPickNextStageId (Some (stage_id Proposal)) qualified_draft = ''proposal''"
proof -
  have h: "\<forall>k \<in> set [''intent'', ''budget'', ''location'', ''propertyType''].
      recorded qualified_draft k \<longrightarrow> holds qualified_draft k"
    by (simp add: recorded_def holds_def qualified_draft_props)
  have r: "recorded qualified_draft ''intent''" "recorded qualified_draft ''budget''"
    "recorded qualified_draft ''location''"
    by (simp_all add: recorded_def qualified_draft_props)
  from stage_policy [of Contacted qualified_draft] h r
  have q: "desiredStage qualified_draft = Qualified"
    by blast
  from stage_policy [of Contacted qualified_draft] stage_policy [of Proposal qualified_draft]
  have "agentPickNextStageId (Some (stage_id Contacted)) qualified_draft = ''qualified''"
    and "agentPickNextStageId (Some (stage_id Proposal)) qualified_draft = ''proposal''"
    by (simp_all add: q max_stage_def)
  moreover have "holds qualified_draft ''intent''" "holds qualified_draft ''budget''"
    "holds qualified_draft ''location''"
    by (simp_all add: holds_def qualified_draft_props)
  ultimately show ?thesis
    using r q by blast
qed

lemma score_closed_form:
  "agentComputeLeadScore d
     = min 100 (25 + weight (holds d ''name'') 10 + weight (holds d ''email'') 15
                  + weight (holds d ''phone'') 15 + weight (holds d ''intent'') 5
                  + weight (holds d ''propertyType'') 10 + weight (holds d ''location'') 10
                  + weight (holds d ''bedrooms'') 5 + weight (holds d ''budget'') 15)"
  by (simp add: agentComputeLeadScore_def Let_def weight_def holds_def)

lemma score_range: "25 \<le> agentComputeLeadScore d \<and> agentComputeLeadScore d \<le> 100"
proof -
  have "0 \<le> weight (holds d ''name'') 10" "0 \<le> weight (holds d ''email'') 15"
    "0 \<le> weight (holds d ''phone'') 15" "0 \<le> weight (holds d ''intent'') 5"
    "0 \<le> weight (holds d ''propertyType'') 10" "0 \<le> weight (holds d ''location'') 10"
    "0 \<le> weight (holds d ''bedrooms'') 5" "0 \<le> weight (holds d ''budget'') 15"
    by (simp_all add: weight_def)
  then show ?thesis
    unfolding score_closed_form by linarith
qed

lemma zero_bedrooms_draft:
  "agentMergeDraft empty_draft zero_bedrooms_signal = [''bedrooms'' \<mapsto> Num (Finite 0)]"
  by (simp add: agentMergeDraft_def zero_bedrooms_signal_def empty_draft_def blank_string_def)

text \<open>
  C4, as stated, fails: merging the signal of the text \<open>0 quartos\<close> into the empty
  draft gives a draft in which bedrooms is present, with the value 0. The specified
  score of that draft is 30; the computed score is 25.
\<close>

theorem lead_score_counterexample:
  "recorded (agentMergeDraft empty_draft zero_bedrooms_signal) ''bedrooms''
   \<and> score_as_specified (agentMergeDraft empty_draft zero_bedrooms_signal) = 30
   \<and> agentComputeLeadScore (agentMergeDraft empty_draft zero_bedrooms_signal) = 25"
  by (simp add: zero_bedrooms_draft recorded_def get_prop_def score_as_specified_def
        weight_def agentComputeLeadScore_def)

text \<open>
  C4, amended. For every draft the score is \<open>min 100\<close> of 25 plus 10 for name, 15 for
  email, 15 for phone, 5 for intent, 10 for property type, 10 for location, 5 for
  bedrooms and 15 for budget, where a fact counts when the draft holds a usable value
  for it: a non-empty string, or a number other than 0 and \<open>NaN\<close> (bedrooms 0 adds
  nothing). The score is an integer from 0 to 100.
\<close>

theorem lead_score_formula:
  "agentComputeLeadScore d
     = min 100 (25 + weight (holds d ''name'') 10 + weight (holds d ''email'') 15
                  + weight (holds d ''phone'') 15 + weight (holds d ''intent'') 5
                  + weight (holds d ''propertyType'') 10 + weight (holds d ''location'') 10
                  + weight (holds d ''bedrooms'') 5 + weight (holds d ''budget'') 15)
   \<and> 0 \<le> agentComputeLeadScore d \<and> agentComputeLeadScore d \<le> 100"
  using score_closed_form [of d] score_range [of d] by linarith

theorem lead_score_formula_witness:
  "holds qualified_draft ''intent'' \<and> agentComputeLeadScore qualified_draft = 55"
proof -
  have w: "weight True 5 = 5" "weight True 10 = 10" "weight True 15 = 15" "weight False 10 = 0"
    "weight False 15 = 0" "weight False 5 = 0"
    by (simp_all add: weight_def)
  have h: "holds qualified_draft ''intent''" "holds qualified_draft ''budget''"
    "holds qualified_draft ''location''" "\<not> holds qualified_draft ''propertyType''"
    "\<not> holds qualified_draft ''name''" "\<not> holds qualified_draft ''email''"
    "\<not> holds qualified_draft ''phone''" "\<not> holds qualified_draft ''bedrooms''"
    by (simp_all add: holds_def qualified_draft_def get_prop_def)
  from lead_score_formula [of qualified_draft] h(1) show ?thesis
    by (simp add: h w)
qed

lemma merge_Nil: "agentMergeDraft d [] = d"
  by (simp add: agentMergeDraft_def)

lemma merge_Cons:
  "agentMergeDraft d ((k, v) # rest) = agentMergeDraft (if writes v then d(k \<mapsto> v) else d) rest"
  by (simp add: agentMergeDraft_def writes_def)

lemma merge_distinct:
  "distinct (map fst signals) \<Longrightarrow>
   agentMergeDraft d signals key
     = (case map_of signals key of
          Some v \<Rightarrow> if writes v then Some v else d key
        | None \<Rightarrow> d key)"
proof (induction signals arbitrary: d)
  case Nil
  show ?case by (simp add: merge_Nil)
next
  case (Cons kv rest)
  obtain k v where kv: "kv = (k, v)"
    by (cases kv)
  from Cons.prems have fresh: "map_of rest k = None" and rest: "distinct (map fst rest)"
    by (auto simp: kv map_of_eq_None_iff)
  show ?case
    using fresh by (auto simp: kv merge_Cons Cons.IH [OF rest] split: option.splits)
qed

lemma merge_keeps: "d key \<noteq> None \<Longrightarrow> agentMergeDraft d signals key \<noteq> None"
proof (induction signals arbitrary: d)
  case Nil
  then show ?case by (simp add: merge_Nil)
next
  case (Cons kv rest)
  obtain k v where kv: "kv = (k, v)"
    by (cases kv)
  have "(if writes v then d(k \<mapsto> v) else d) key \<noteq> None"
    using Cons.prems by simp
  then show ?case
    unfolding kv merge_Cons by (rule Cons.IH)
qed

text \<open>
  C5, as stated, fails in both directions: a budget signal of \<open>Infinity\<close>, which is no
  finite number, overwrites the budget; and a name signal of one space, which is a
  non-empty string, does not overwrite the name.
\<close>

theorem fact_merger_counterexample:
  "\<not> overwrites_as_specified (Num PosInfinity)
   \<and> merge_as_specified empty_draft infinite_budget_signal ''budget'' = None
   \<and> agentMergeDraft empty_draft infinite_budget_signal ''budget'' = Some (Num PosInfinity)
   \<and> overwrites_as_specified (Str '' '')
   \<and> merge_as_specified ana_draft blank_name_signal ''name'' = Some (Str '' '')
   \<and> agentMergeDraft ana_draft blank_name_signal ''name'' = Some (Str ''Ana'')"
  by (simp add: overwrites_as_specified_def merge_as_specified_def agentMergeDraft_def
        empty_draft_def ana_draft_def infinite_budget_signal_def blank_name_signal_def
        blank_string_def js_trim_def is_ws_def)

text \<open>
  C5, amended. Merging the empty signal returns the draft. For every draft and every
  signal (an object: each field once), each field of the result is the signal's value
  where the signal has the field with a value other than \<open>undefined\<close>, \<open>null\<close> and a
  string that is empty after trimming (any number overwrites, finite or not), and the
  draft's own field otherwise. A field the draft has is never cleared.
\<close>

theorem fact_merger_contract:
  "agentMergeDraft d [] = d
   \<and> (distinct (map fst signals) \<longrightarrow>
        agentMergeDraft d signals key
          = (case map_of signals key of
               Some v \<Rightarrow> if writes v then Some v else d key
             | None \<Rightarrow> d key))
   \<and> (d key \<noteq> None \<longrightarrow> agentMergeDraft d signals key \<noteq> None)"
  using merge_Nil [of d] merge_distinct [of signals d key] merge_keeps [of d key signals]
  by blast

theorem fact_merger_contract_witness:
  "distinct (map fst email_phone_signal)
   \<and> ana_draft ''name'' \<noteq> None
   \<and> agentMergeDraft ana_draft email_phone_signal ''email'' = Some (Str ''ana@example.com'')
   \<and> agentMergeDraft ana_draft email_phone_signal ''phone'' = ana_draft ''phone''
   \<and> agentMergeDraft ana_draft email_phone_signal ''name'' \<noteq> None"
proof -
  have h: "distinct (map fst email_phone_signal)"
    by (simp add: email_phone_signal_def)
  have n: "ana_draft ''name'' \<noteq> None"
    by (simp add: ana_draft_def)
  have w: "writes (Str ''ana@example.com'')" "\<not> writes (Str '''')"
    by (simp_all add: writes_def blank_string_def js_trim_def is_ws_def)
  have m: "map_of email_phone_signal ''email'' = Some (Str ''ana@example.com'')"
    "map_of email_phone_signal ''phone'' = Some (Str '''')"
    by (simp_all add: email_phone_signal_def)
  from fact_merger_contract [of ana_draft email_phone_signal "''email''"] h
  have e: "agentMergeDraft ana_draft email_phone_signal ''email'' = Some (Str ''ana@example.com'')"
    by (simp add: m w)
  from fact_merger_contract [of ana_draft email_phone_signal "''phone''"] h
  have p: "agentMergeDraft ana_draft email_phone_signal ''phone'' = ana_draft ''phone''"
    by (simp add: m w)
  from fact_merger_contract [of ana_draft email_phone_signal "''name''"] n
  have k: "agentMergeDraft ana_draft email_phone_signal ''name'' \<noteq> None"
    by blast
  from h n e p k show ?thesis
    by blast
qed

section \<open>Properties of the workflow orchestrator\<close>

lemma find_first:
  "leads = before @ l # after \<Longrightarrow> P l \<Longrightarrow> \<forall>x \<in> set before. \<not> P x \<Longrightarrow> find P leads = Some l"
  by (induction before arbitrary: leads) auto

lemma createId_truthy: "id_truthy (Some (createId p s))"
  by (simp add: id_truthy_def createId_def)

lemma run_shape:
  "(runAgentWorkflow ex sn inp ss = (Ignored, ss))
   \<or> (runAgentWorkflow ex sn inp ss = (TypeError, ss))
   \<or> (\<exists>out ss'. runAgentWorkflow ex sn inp ss = (Processed out, ss'))"
  by (simp add: runAgentWorkflow_def Let_def split: option.splits)

lemma run_processed_names:
  assumes "runAgentWorkflow ex sn inp ss = (Processed out, ss')"
  shows "js_trim (message_text inp) \<noteq> []
     \<and> (\<exists>leadName company.
          trimmed_or (get_prop (merged_draft ex inp ss) ''name'')
            (fallbackName (author inp) (channelId inp)) = Some leadName
        \<and> trimmed_or (get_prop (merged_draft ex inp ss) ''company'') [] = Some company)"
proof (cases "js_trim (message_text inp) = []")
  case True
  with assms show ?thesis
    by (simp add: runAgentWorkflow_def)
next
  case False
  show ?thesis
  proof (cases "trimmed_or (get_prop (merged_draft ex inp ss) ''name'')
            (fallbackName (author inp) (channelId inp))")
    case None
    with assms False show ?thesis
      by (simp add: runAgentWorkflow_def merged_draft_def Let_def)
  next
    case (Some leadName)
    note name = this
    show ?thesis
    proof (cases "trimmed_or (get_prop (merged_draft ex inp ss) ''company'') []")
      case None
      with assms False name show ?thesis
        by (simp add: runAgentWorkflow_def merged_draft_def Let_def)
    next
      case (Some company)
      with False name show ?thesis
        by simp
    qed
  qed
qed

lemma run_fields:
  assumes run: "runAgentWorkflow ex sn inp ss = (Processed out, ss')"
  defines "s \<equiv> channelSession ss (channelId inp)"
  defines "d \<equiv> merged_draft ex inp ss"
  defines "resolved \<equiv> resolve_leadId s d (storedLeadList inp)"
  shows "nextDraft out = d"
    and "createdLead out = (\<not> id_truthy resolved \<and> autoCreateLead (currentSettings inp))"
    and "resolved_leadId out
           = (if createdLead out then Some (createId ''k'' (new_lead_suffix inp)) else resolved)"
    and "leads_after out
           = (if createdLead out
              then new_lead (createId ''k'' (new_lead_suffix inp)) (leadPayload out)
                     # storedLeadList inp
              else if id_truthy resolved
              then map (\<lambda>l. if Some (lead_id l) = resolved
                              then apply_payload (leadPayload out) l else l)
                       (storedLeadList inp)
              else storedLeadList inp)"
    and "automationTasks out
           = (if createdLead out \<and> activeAutomations inp \<noteq> [] \<and> \<not> automationsTriggered s
              then build_automation_tasks inp (payload_name (leadPayload out))
                     (activeAutomations inp)
              else [])"
    and "triggeredAutomations out = (automationTasks out \<noteq> [])"
    and "payload_score (leadPayload out) = agentComputeLeadScore d"
    and "\<exists>s'. ss' = ss(channelId inp \<mapsto> s')
              \<and> leadId s' = resolved_leadId out
              \<and> draft s' = d
              \<and> automationsTriggered s' = (automationsTriggered s \<or> triggeredAutomations out)"
proof -
  from run_processed_names [OF run] obtain leadName company where
    t: "js_trim (message_text inp) \<noteq> []"
    and n: "trimmed_or (get_prop d ''name'') (fallbackName (author inp) (channelId inp)) = Some leadName"
    and c: "trimmed_or (get_prop d ''company'') [] = Some company"
    unfolding d_def by blast
  from run t n c
  show "nextDraft out = d"
    and "createdLead out = (\<not> id_truthy resolved \<and> autoCreateLead (currentSettings inp))"
    and "resolved_leadId out
           = (if createdLead out then Some (createId ''k'' (new_lead_suffix inp)) else resolved)"
    and "leads_after out
           = (if createdLead out
              then new_lead (createId ''k'' (new_lead_suffix inp)) (leadPayload out)
                     # storedLeadList inp
              else if id_truthy resolved
              then map (\<lambda>l. if Some (lead_id l) = resolved
                              then apply_payload (leadPayload out) l else l)
                       (storedLeadList inp)
              else storedLeadList inp)"
    and "automationTasks out
           = (if createdLead out \<and> activeAutomations inp \<noteq> [] \<and> \<not> automationsTriggered s
              then build_automation_tasks inp (payload_name (leadPayload out))
                     (activeAutomations inp)
              else [])"
    and "triggeredAutomations out = (automationTasks out \<noteq> [])"
    and "payload_score (leadPayload out) = agentComputeLeadScore d"
    and "\<exists>s'. ss' = ss(channelId inp \<mapsto> s')
              \<and> leadId s' = resolved_leadId out
              \<and> draft s' = d
              \<and> automationsTriggered s' = (automationsTriggered s \<or> triggeredAutomations out)"
    unfolding d_def s_def resolved_def merged_draft_def
    by (auto simp: runAgentWorkflow_def Let_def createId_truthy)
qed

subsection \<open>Resolution of the lead\<close>

lemma resolve_session:
  "id_truthy (leadId s) \<Longrightarrow> resolve_leadId s d leads = leadId s"
  by (simp add: resolve_leadId_def resolve_by_email_def resolve_by_phone_def)

lemma resolve_email:
  assumes "\<not> id_truthy (leadId s)" and "holds d ''email''"
    and "leads = before @ l # after" and "email_matches d l"
    and "\<forall>x \<in> set before. \<not> email_matches d x" and "lead_id l \<noteq> []"
  shows "resolve_leadId s d leads = Some (lead_id l)"
proof -
  have "find (email_matches d) leads = Some l"
    using assms(3,4,5) by (rule find_first)
  then have "resolve_by_email d leads (leadId s) = Some (lead_id l)"
    using assms(1,2) by (simp add: resolve_by_email_def holds_def)
  then show ?thesis
    using assms(6) by (simp add: resolve_leadId_def resolve_by_phone_def id_truthy_def)
qed

lemma resolve_email_none:
  assumes "\<not> id_truthy (leadId s)"
    and "\<not> (holds d ''email'' \<and> (\<exists>x \<in> set leads. email_matches d x))"
  shows "resolve_by_email d leads (leadId s) = leadId s"
proof (cases "holds d ''email''")
  case True
  with assms(2) have "find (email_matches d) leads = None"
    by (simp add: find_None_iff)
  then show ?thesis
    by (simp add: resolve_by_email_def)
next
  case False
  then show ?thesis
    by (simp add: resolve_by_email_def holds_def)
qed

lemma resolve_phone:
  assumes "\<not> id_truthy (leadId s)"
    and "\<not> (holds d ''email'' \<and> (\<exists>x \<in> set leads. email_matches d x))"
    and "holds d ''phone''"
    and "leads = before @ l # after" and "phone_matches d l"
    and "\<forall>x \<in> set before. \<not> phone_matches d x"
  shows "resolve_leadId s d leads = Some (lead_id l)"
proof -
  have "find (phone_matches d) leads = Some l"
    using assms(4,5,6) by (rule find_first)
  then show ?thesis
    using assms(1,3) resolve_email_none [OF assms(1,2)]
    by (simp add: resolve_leadId_def resolve_by_phone_def holds_def)
qed

lemma resolve_none:
  assumes "\<not> id_truthy (leadId s)"
    and "\<not> (holds d ''email'' \<and> (\<exists>x \<in> set leads. email_matches d x))"
    and "\<not> (holds d ''phone'' \<and> (\<exists>x \<in> set leads. phone_matches d x))"
  shows "resolve_leadId s d leads = leadId s"
proof (cases "holds d ''phone''")
  case True
  with assms(3) have "find (phone_matches d) leads = None"
    by (simp add: find_None_iff)
  then show ?thesis
    using resolve_email_none [OF assms(1,2)]
    by (simp add: resolve_leadId_def resolve_by_phone_def)
next
  case False
  then show ?thesis
    using resolve_email_none [OF assms(1,2)]
    by (simp add: resolve_leadId_def resolve_by_phone_def holds_def)
qed

text \<open>
  C9, as stated, fails. With the creation of leads switched off, an empty lead list
  and a session without lead, nothing matches, yet no lead is created and the session
  is written back without a lead id. And a lead whose phone has no digit is not
  matched by a draft whose phone has no digit either, although the two digits-only
  forms are equal: a new lead is created instead.
\<close>

theorem dedup_resolver_counterexample:
  "storedLeadList unmatched_message = []
   \<and> leadId (channelSession no_sessions (channelId unmatched_message)) = None
   \<and> map_option createdLead
        (the_outcome (fst (runAgentWorkflow name_only not_a_number unmatched_message no_sessions)))
       = Some False
   \<and> map_option leadId
        (snd (runAgentWorkflow name_only not_a_number unmatched_message no_sessions) ''whatsapp'')
       = Some None
   \<and> digits_only (js_String (or_empty (lead_phone lead_without_phone)))
       = digits_only (js_String (get_prop (merged_draft extension_only extension_message no_sessions) ''phone''))
   \<and> map_option createdLead
        (the_outcome (fst (runAgentWorkflow extension_only not_a_number extension_message no_sessions)))
       = Some True"
  by code_simp

text \<open>
  C9, amended. For every call that processes a message, with the merged draft and the
  lead list of the call: a session that has a lead id keeps it, and no lead is
  created. Otherwise the id is that of the first lead whose email equals the draft's
  email without regard to case; if the draft has no email or no lead matches it, the
  id is that of the first lead whose digits-only phone is not empty and equals the
  draft's digits-only phone. A lead found in one of these ways is updated in place. If
  nothing matches, a new lead with a fresh id is put in front of the list when the
  creation of leads is enabled, and otherwise the list is unchanged and the session
  keeps no lead id. The id so determined is the one written back into the session.
\<close>

theorem dedup_resolver_priority:
  assumes run: "runAgentWorkflow ex sn inp ss = (Processed out, ss')"
  shows "(id_truthy (leadId (channelSession ss (channelId inp))) \<longrightarrow>
            resolved_leadId out = leadId (channelSession ss (channelId inp))
            \<and> \<not> createdLead out)
       \<and> (\<forall>before l after.
            \<not> id_truthy (leadId (channelSession ss (channelId inp)))
            \<and> holds (nextDraft out) ''email''
            \<and> storedLeadList inp = before @ l # after
            \<and> email_matches (nextDraft out) l
            \<and> (\<forall>x \<in> set before. \<not> email_matches (nextDraft out) x)
            \<and> lead_id l \<noteq> [] \<longrightarrow>
            resolved_leadId out = Some (lead_id l) \<and> \<not> createdLead out)
       \<and> (\<forall>before l after.
            \<not> id_truthy (leadId (channelSession ss (channelId inp)))
            \<and> \<not> (holds (nextDraft out) ''email''
                   \<and> (\<exists>x \<in> set (storedLeadList inp). email_matches (nextDraft out) x))
            \<and> holds (nextDraft out) ''phone''
            \<and> storedLeadList inp = before @ l # after
            \<and> phone_matches (nextDraft out) l
            \<and> (\<forall>x \<in> set before. \<not> phone_matches (nextDraft out) x)
            \<and> lead_id l \<noteq> [] \<longrightarrow>
            resolved_leadId out = Some (lead_id l) \<and> \<not> createdLead out)
       \<and> (\<not> id_truthy (leadId (channelSession ss (channelId inp)))
            \<and> \<not> (holds (nextDraft out) ''email''
                   \<and> (\<exists>x \<in> set (storedLeadList inp). email_matches (nextDraft out) x))
            \<and> \<not> (holds (nextDraft out) ''phone''
                   \<and> (\<exists>x \<in> set (storedLeadList inp). phone_matches (nextDraft out) x)) \<longrightarrow>
            createdLead out = autoCreateLead (currentSettings inp)
            \<and> (autoCreateLead (currentSettings inp) \<longrightarrow>
                  resolved_leadId out = Some (createId ''k'' (new_lead_suffix inp))
                  \<and> leads_after out
                      = new_lead (createId ''k'' (new_lead_suffix inp)) (leadPayload out)
                          # storedLeadList inp)
            \<and> (\<not> autoCreateLead (currentSettings inp) \<longrightarrow>
                  \<not> id_truthy (resolved_leadId out)
                  \<and> leads_after out = storedLeadList inp))
       \<and> (\<not> createdLead out \<and> id_truthy (resolved_leadId out) \<longrightarrow>
            leads_after out
              = map (\<lambda>l. if Some (lead_id l) = resolved_leadId out
                          then apply_payload (leadPayload out) l else l)
                    (storedLeadList inp))
       \<and> map_option leadId (ss' (channelId inp)) = Some (resolved_leadId out)"
proof -
  let ?s = "channelSession ss (channelId inp)"
  let ?d = "nextDraft out"
  let ?leads = "storedLeadList inp"
  note f = run_fields [OF run]
  have d: "merged_draft ex inp ss = ?d"
    using f(1) by simp
  have created: "createdLead out
      = (\<not> id_truthy (resolve_leadId ?s ?d ?leads) \<and> autoCreateLead (currentSettings inp))"
    using f(2) by (simp add: d)
  have resolved: "resolved_leadId out
      = (if createdLead out then Some (createId ''k'' (new_lead_suffix inp))
         else resolve_leadId ?s ?d ?leads)"
    using f(3) by (simp add: d)
  have after: "leads_after out
      = (if createdLead out
         then new_lead (createId ''k'' (new_lead_suffix inp)) (leadPayload out) # ?leads
         else if id_truthy (resolve_leadId ?s ?d ?leads)
         then map (\<lambda>l. if Some (lead_id l) = resolve_leadId ?s ?d ?leads
                         then apply_payload (leadPayload out) l else l) ?leads
         else ?leads)"
    using f(4) by (simp add: d)
  have kept: "resolved_leadId out = leadId ?s \<and> \<not> createdLead out"
    if "id_truthy (leadId ?s)"
    using that resolve_session [OF that, of ?d ?leads] by (simp add: created resolved)
  have by_email: "resolved_leadId out = Some (lead_id l) \<and> \<not> createdLead out"
    if "\<not> id_truthy (leadId ?s)" "holds ?d ''email''" "?leads = before @ l # after"
      "email_matches ?d l" "\<forall>x \<in> set before. \<not> email_matches ?d x" "lead_id l \<noteq> []"
    for before l after
    using resolve_email [OF that] that(6) by (simp add: created resolved id_truthy_def)
  have by_phone: "resolved_leadId out = Some (lead_id l) \<and> \<not> createdLead out"
    if "\<not> id_truthy (leadId ?s)"
      "\<not> (holds ?d ''email'' \<and> (\<exists>x \<in> set ?leads. email_matches ?d x))"
      "holds ?d ''phone''" "?leads = before @ l # after"
      "phone_matches ?d l" "\<forall>x \<in> set before. \<not> phone_matches ?d x" "lead_id l \<noteq> []"
    for before l after
    using resolve_phone [OF that(1-6)] that(7) by (simp add: created resolved id_truthy_def)
  have fresh: "createdLead out = autoCreateLead (currentSettings inp)
      \<and> (autoCreateLead (currentSettings inp) \<longrightarrow>
            resolved_leadId out = Some (createId ''k'' (new_lead_suffix inp))
            \<and> leads_after out
                = new_lead (createId ''k'' (new_lead_suffix inp)) (leadPayload out) # ?leads)
      \<and> (\<not> autoCreateLead (currentSettings inp) \<longrightarrow>
            \<not> id_truthy (resolved_leadId out) \<and> leads_after out = ?leads)"
    if "\<not> id_truthy (leadId ?s)"
      "\<not> (holds ?d ''email'' \<and> (\<exists>x \<in> set ?leads. email_matches ?d x))"
      "\<not> (holds ?d ''phone'' \<and> (\<exists>x \<in> set ?leads. phone_matches ?d x))"
    using resolve_none [OF that] that(1) by (simp add: created resolved after)
  have updated: "leads_after out
      = map (\<lambda>l. if Some (lead_id l) = resolved_leadId out
                  then apply_payload (leadPayload out) l else l) ?leads"
    if "\<not> createdLead out \<and> id_truthy (resolved_leadId out)"
  proof -
    from that have same: "resolved_leadId out = resolve_leadId ?s ?d ?leads"
      by (simp add: resolved)
    from that show ?thesis
      unfolding same by (simp add: after)
  qed
  have written: "map_option leadId (ss' (channelId inp)) = Some (resolved_leadId out)"
    using f(8) by auto
  from kept by_email by_phone fresh updated written show ?thesis
    by blast
qed

theorem dedup_resolver_priority_witness:
  "runAgentWorkflow name_only not_a_number first_message no_sessions
     = (Processed (the (the_outcome (fst (runAgentWorkflow name_only not_a_number first_message no_sessions)))),
        snd (runAgentWorkflow name_only not_a_number first_message no_sessions))
   \<and> \<not> id_truthy (leadId (channelSession no_sessions (channelId first_message)))
   \<and> storedLeadList first_message = []
   \<and> autoCreateLead (currentSettings first_message)
   \<and> createdLead (the (the_outcome (fst (runAgentWorkflow name_only not_a_number first_message no_sessions))))
   \<and> resolved_leadId (the (the_outcome (fst (runAgentWorkflow name_only not_a_number first_message no_sessions))))
       = Some ''k-a1''
   \<and> map_option leadId (snd (runAgentWorkflow name_only not_a_number first_message no_sessions) ''whatsapp'')
       = Some (Some ''k-a1'')
   \<and> storedLeadList email_message = [lead_without_phone] @ lead_ana # []
   \<and> email_matches
        (nextDraft (the (the_outcome (fst (runAgentWorkflow email_only not_a_number email_message no_sessions)))))
        lead_ana
   \<and> resolved_leadId (the (the_outcome (fst (runAgentWorkflow email_only not_a_number email_message no_sessions))))
       = Some ''k-ana''
   \<and> \<not> createdLead (the (the_outcome (fst (runAgentWorkflow email_only not_a_number email_message no_sessions))))"
proof -
  let ?run = "runAgentWorkflow name_only not_a_number first_message no_sessions"
  let ?out = "the (the_outcome (fst ?run))"
  have "fired (fst ?run)"
    by code_simp
  then obtain out where "fst ?run = Processed out"
    by (cases "fst ?run") (simp_all add: fired_def)
  then have run: "?run = (Processed ?out, snd ?run)"
    by (simp add: the_outcome_def prod_eq_iff)
  have s: "\<not> id_truthy (leadId (channelSession no_sessions (channelId first_message)))"
    by code_simp
  have l: "storedLeadList first_message = []"
    by code_simp
  have a: "autoCreateLead (currentSettings first_message)"
    by code_simp
  have c: "channelId first_message = ''whatsapp''"
    by code_simp
  have k: "createId ''k'' (new_lead_suffix first_message) = ''k-a1''"
    by code_simp
  from dedup_resolver_priority [OF run] s l a
  have first: "createdLead ?out \<and> resolved_leadId ?out = Some ''k-a1''
      \<and> map_option leadId (snd ?run ''whatsapp'') = Some (Some ''k-a1'')"
    by (auto simp: c k)
  let ?run2 = "runAgentWorkflow email_only not_a_number email_message no_sessions"
  let ?out2 = "the (the_outcome (fst ?run2))"
  have "the_outcome (fst ?run2) \<noteq> None"
    by code_simp
  then obtain out2 where "fst ?run2 = Processed out2"
    by (cases "fst ?run2") (simp_all add: the_outcome_def)
  then have run2: "?run2 = (Processed ?out2, snd ?run2)"
    by (simp add: the_outcome_def prod_eq_iff)
  have s2: "\<not> id_truthy (leadId (channelSession no_sessions (channelId email_message)))"
    by code_simp
  have e: "holds (nextDraft ?out2) ''email''"
    by code_simp
  have l2: "storedLeadList email_message = [lead_without_phone] @ lead_ana # []"
    by code_simp
  have m: "email_matches (nextDraft ?out2) lead_ana"
    by code_simp
  have n: "\<forall>x \<in> set [lead_without_phone]. \<not> email_matches (nextDraft ?out2) x"
    by code_simp
  have i: "lead_id lead_ana \<noteq> []" "lead_id lead_ana = ''k-ana''"
    by code_simp+
  from dedup_resolver_priority [OF run2] s2 e l2 m n i(1)
  have "resolved_leadId ?out2 = Some (lead_id lead_ana) \<and> \<not> createdLead ?out2"
    by blast
  then have second: "resolved_leadId ?out2 = Some ''k-ana'' \<and> \<not> createdLead ?out2"
    by (simp add: i(2))
  from run s l a first l2 m second show ?thesis
    by blast
qed

subsection \<open>The automation latch\<close>

lemma step_flag_mono:
  assumes "flag ss c"
  shows "flag (snd (runAgentWorkflow ex sn inp ss)) c"
proof -
  consider "runAgentWorkflow ex sn inp ss = (Ignored, ss)"
    | "runAgentWorkflow ex sn inp ss = (TypeError, ss)"
    | out ss' where "runAgentWorkflow ex sn inp ss = (Processed out, ss')"
    using run_shape [of ex sn inp ss] by blast
  then show ?thesis
  proof cases
    case 1
    with assms show ?thesis by simp
  next
    case 2
    with assms show ?thesis by simp
  next
    case 3
    from run_fields(8) [OF 3] obtain s' where
      "ss' = ss(channelId inp \<mapsto> s')"
      and "automationsTriggered s'
           = (automationsTriggered (channelSession ss (channelId inp)) \<or> triggeredAutomations out)"
      by blast
    with assms 3 show ?thesis
      by (auto simp: flag_def channelSession_def)
  qed
qed

lemma step_fired:
  assumes "runAgentWorkflow ex sn inp ss = (Processed out, ss')"
    and "automationTasks out \<noteq> []"
  shows "createdLead out" and "\<not> flag ss (channelId inp)"
    and "triggeredAutomations out" and "flag ss' (channelId inp)"
    and "automationTasks out
           = build_automation_tasks inp (payload_name (leadPayload out)) (activeAutomations inp)"
proof -
  note f = run_fields [OF assms(1)]
  from f(5) assms(2) show c: "createdLead out" and n: "\<not> flag ss (channelId inp)"
    and "automationTasks out
           = build_automation_tasks inp (payload_name (leadPayload out)) (activeAutomations inp)"
    by (auto simp: flag_def split: if_splits)
  from f(6) assms(2) show t: "triggeredAutomations out"
    by simp
  from f(8) t show "flag ss' (channelId inp)"
    by (auto simp: flag_def channelSession_def)
qed

lemma automation_task_source:
  assumes "t \<in> set (build_automation_tasks inp nm autos)"
  shows "\<exists>a \<in> set autos. \<exists>i. task_title t = AutomationTitle (automation_name a) i"
proof -
  from assms obtain k a j st where "(k, a) \<in> set (enumerate 0 autos)"
    and t: "t = step_task inp nm k a (j, st)"
    by (auto simp: build_automation_tasks_def)
  then have "a \<in> set autos"
    by (auto simp: in_set_enumerate_eq)
  moreover have "task_title t = AutomationTitle (automation_name a) (j + 1)"
    by (simp add: t step_task_def Let_def)
  ultimately show ?thesis
    by blast
qed

lemma active_automation:
  "a \<in> set (activeAutomations inp) \<Longrightarrow>
   a \<in> set (storedAutomationList inp) \<and> active a \<and> trigger a = ''new_lead''"
  by (auto simp: activeAutomations_def split: if_splits)

lemma run_messages_flag:
  "flag ss c \<Longrightarrow> flag (snd (run_messages ex sn inps ss)) c"
proof (induction inps arbitrary: ss)
  case Nil
  then show ?case by simp
next
  case (Cons inp rest)
  from step_flag_mono [OF Cons.prems, of ex sn inp]
  have "flag (snd (run_messages ex sn rest (snd (runAgentWorkflow ex sn inp ss)))) c"
    by (rule Cons.IH)
  then show ?case
    by (simp add: split_beta Let_def)
qed

lemma step_not_fired_when_flagged:
  assumes "flag ss (channelId inp)"
  shows "\<not> fired (fst (runAgentWorkflow ex sn inp ss))"
proof
  assume "fired (fst (runAgentWorkflow ex sn inp ss))"
  then obtain out where r: "fst (runAgentWorkflow ex sn inp ss) = Processed out"
    and t: "automationTasks out \<noteq> []"
    by (cases "fst (runAgentWorkflow ex sn inp ss)") (simp_all add: fired_def)
  from r have "runAgentWorkflow ex sn inp ss = (Processed out, snd (runAgentWorkflow ex sn inp ss))"
    by (simp add: prod_eq_iff)
  from step_fired(2) [OF this t] assms show False
    by simp
qed

lemma firings_Cons:
  "firings c (inp # rest) (fst (run_messages ex sn (inp # rest) ss))
     = (if channelId inp = c \<and> fired (fst (runAgentWorkflow ex sn inp ss)) then 1 else 0)
       + firings c rest (fst (run_messages ex sn rest (snd (runAgentWorkflow ex sn inp ss))))"
  by (simp add: firings_def split_beta Let_def)

lemma no_firing_when_flagged:
  "flag ss c \<Longrightarrow> firings c inps (fst (run_messages ex sn inps ss)) = 0"
proof (induction inps arbitrary: ss)
  case Nil
  show ?case by (simp add: firings_def)
next
  case (Cons inp rest)
  have "\<not> (channelId inp = c \<and> fired (fst (runAgentWorkflow ex sn inp ss)))"
    using step_not_fired_when_flagged [of ss inp ex sn] Cons.prems by blast
  moreover have "firings c rest (fst (run_messages ex sn rest (snd (runAgentWorkflow ex sn inp ss)))) = 0"
    using step_flag_mono [OF Cons.prems, of ex sn inp] by (rule Cons.IH)
  ultimately show ?case
    unfolding firings_Cons by simp
qed

lemma fired_sets_flag:
  assumes "fired (fst (runAgentWorkflow ex sn inp ss))"
  shows "flag (snd (runAgentWorkflow ex sn inp ss)) (channelId inp)"
proof -
  from assms obtain out where r: "fst (runAgentWorkflow ex sn inp ss) = Processed out"
    and t: "automationTasks out \<noteq> []"
    by (cases "fst (runAgentWorkflow ex sn inp ss)") (simp_all add: fired_def)
  from r have "runAgentWorkflow ex sn inp ss = (Processed out, snd (runAgentWorkflow ex sn inp ss))"
    by (simp add: prod_eq_iff)
  from step_fired(4) [OF this t] show ?thesis .
qed

lemma firings_at_most_once: "firings c inps (fst (run_messages ex sn inps ss)) \<le> 1"
proof (induction inps arbitrary: ss)
  case Nil
  show ?case by (simp add: firings_def)
next
  case (Cons inp rest)
  show ?case
  proof (cases "channelId inp = c \<and> fired (fst (runAgentWorkflow ex sn inp ss))")
    case True
    then have "flag (snd (runAgentWorkflow ex sn inp ss)) c"
      using fired_sets_flag [of ex sn inp ss] by blast
    then have "firings c rest (fst (run_messages ex sn rest (snd (runAgentWorkflow ex sn inp ss)))) = 0"
      by (rule no_firing_when_flagged)
    with True show ?thesis
      unfolding firings_Cons by simp
  next
    case False
    then have none: "(if channelId inp = c \<and> fired (fst (runAgentWorkflow ex sn inp ss))
                      then 1 else 0 :: nat) = 0"
      by simp
    from Cons.IH [of "snd (runAgentWorkflow ex sn inp ss)"] show ?thesis
      unfolding firings_Cons none by simp
  qed
qed

text \<open>
  C2. The flag \<open>automationsTriggered\<close> of a session is a latch: if it is set before a
  call, or before a sequence of calls, it is set afterwards, whatever the messages,
  settings and stores. A call creates automation tasks only if it created the lead in
  this very call and the flag of its session was not set before, and every such task
  stems from an automation of the stored list that is active and has the trigger
  \<open>new_lead\<close>; such a call reports the automations as triggered and leaves the flag
  set. Hence in every sequence of calls, for every channel, at most one call creates
  automation tasks.
\<close>

theorem automation_latch:
  "(flag ss c \<longrightarrow> flag (snd (runAgentWorkflow ex sn inp ss)) c)
   \<and> (flag ss c \<longrightarrow> flag (snd (run_messages ex sn inps ss)) c)
   \<and> (\<forall>out ss'. runAgentWorkflow ex sn inp ss = (Processed out, ss')
          \<and> automationTasks out \<noteq> [] \<longrightarrow>
          createdLead out
          \<and> \<not> flag ss (channelId inp)
          \<and> (\<forall>t \<in> set (automationTasks out).
                \<exists>a \<in> set (storedAutomationList inp).
                  active a \<and> trigger a = ''new_lead''
                  \<and> (\<exists>i. task_title t = AutomationTitle (automation_name a) i))
          \<and> triggeredAutomations out
          \<and> flag ss' (channelId inp))
   \<and> (flag ss (channelId inp) \<longrightarrow> \<not> fired (fst (runAgentWorkflow ex sn inp ss)))
   \<and> firings c inps (fst (run_messages ex sn inps ss)) \<le> 1"
proof -
  have only: "createdLead out \<and> \<not> flag ss (channelId inp)
      \<and> (\<forall>t \<in> set (automationTasks out).
            \<exists>a \<in> set (storedAutomationList inp).
              active a \<and> trigger a = ''new_lead''
              \<and> (\<exists>i. task_title t = AutomationTitle (automation_name a) i))
      \<and> triggeredAutomations out \<and> flag ss' (channelId inp)"
    if run: "runAgentWorkflow ex sn inp ss = (Processed out, ss')"
      and tasks: "automationTasks out \<noteq> []"
    for out ss'
  proof -
    note f = step_fired [OF run tasks]
    have "\<exists>a \<in> set (storedAutomationList inp).
            active a \<and> trigger a = ''new_lead''
            \<and> (\<exists>i. task_title t = AutomationTitle (automation_name a) i)"
      if "t \<in> set (automationTasks out)" for t
    proof -
      from that f(5) obtain a i where "a \<in> set (activeAutomations inp)"
        and "task_title t = AutomationTitle (automation_name a) i"
        using automation_task_source by metis
      with active_automation [of a inp] show ?thesis
        by blast
    qed
    with f(1-4) show ?thesis
      by blast
  qed
  from step_flag_mono [of ss c ex sn inp] run_messages_flag [of ss c ex sn inps] only
    step_not_fired_when_flagged [of ss inp ex sn] firings_at_most_once [of c inps ex sn ss]
  show ?thesis
    by blast
qed

theorem automation_latch_witness:
  "fired (fst (runAgentWorkflow name_only not_a_number first_message no_sessions))
   \<and> flag (snd (runAgentWorkflow name_only not_a_number first_message no_sessions)) ''whatsapp''
   \<and> \<not> fired (fst (runAgentWorkflow name_only not_a_number second_message
                     (snd (runAgentWorkflow name_only not_a_number first_message no_sessions))))
   \<and> flag (snd (runAgentWorkflow name_only not_a_number second_message
                 (snd (runAgentWorkflow name_only not_a_number first_message no_sessions))))
        ''whatsapp''
   \<and> map fired (fst (run_messages name_only not_a_number [first_message, second_message] no_sessions))
       = [True, False]"
proof -
  let ?run = "runAgentWorkflow name_only not_a_number first_message no_sessions"
  have fired1: "fired (fst ?run)"
    by code_simp
  then obtain out where "fst ?run = Processed out" and tasks: "automationTasks out \<noteq> []"
    by (cases "fst ?run") (simp_all add: fired_def)
  then have run: "?run = (Processed out, snd ?run)"
    by (simp add: prod_eq_iff)
  have c: "channelId first_message = ''whatsapp''" "channelId second_message = ''whatsapp''"
    by code_simp+
  from automation_latch [of no_sessions "''whatsapp''" name_only not_a_number first_message "[]"]
    run tasks
  have set1: "flag (snd ?run) ''whatsapp''"
    unfolding c by blast
  from automation_latch [of "snd ?run" "''whatsapp''" name_only not_a_number second_message "[]"] set1
  have second: "\<not> fired (fst (runAgentWorkflow name_only not_a_number second_message (snd ?run)))"
    "flag (snd (runAgentWorkflow name_only not_a_number second_message (snd ?run))) ''whatsapp''"
    unfolding c by blast+
  have all: "map fired (fst (run_messages name_only not_a_number [first_message, second_message] no_sessions))
       = [True, False]"
    by code_simp
  from fired1 set1 second all show ?thesis
    by blast
qed

subsection \<open>The score of the leads written\<close>

lemma written_lead_score:
  assumes run: "runAgentWorkflow ex sn inp ss = (Processed out, ss')"
    and l: "l \<in> set (leads_after out)" and new: "l \<notin> set (storedLeadList inp)"
  shows "lead_score l = payload_score (leadPayload out)"
proof -
  note f = run_fields(4) [OF run]
  show ?thesis
  proof (cases "createdLead out")
    case True
    with f l new show ?thesis
      by (auto simp: new_lead_def)
  next
    case False
    with f l new show ?thesis
      by (auto simp: apply_payload_def split: if_splits)
  qed
qed

lemma created_lead_written:
  assumes run: "runAgentWorkflow ex sn inp ss = (Processed out, ss')"
    and c: "createdLead out"
  shows "\<exists>l. leads_after out = l # storedLeadList inp
           \<and> lead_id l = createId ''k'' (new_lead_suffix inp)
           \<and> lead_score l = payload_score (leadPayload out)"
  using run_fields(4) [OF run] c by (simp add: new_lead_def)

lemma updated_leads_written:
  assumes run: "runAgentWorkflow ex sn inp ss = (Processed out, ss')"
    and c: "\<not> createdLead out"
  shows "length (leads_after out) = length (storedLeadList inp)"
    and "i < length (storedLeadList inp) \<Longrightarrow>
           lead_id (leads_after out ! i) = lead_id (storedLeadList inp ! i)"
    and "i < length (storedLeadList inp) \<Longrightarrow>
         id_truthy (resolved_leadId out) \<Longrightarrow>
         Some (lead_id (storedLeadList inp ! i)) = resolved_leadId out \<Longrightarrow>
           lead_score (leads_after out ! i) = payload_score (leadPayload out)"
    and "i < length (storedLeadList inp) \<Longrightarrow>
         \<not> (id_truthy (resolved_leadId out)
            \<and> Some (lead_id (storedLeadList inp ! i)) = resolved_leadId out) \<Longrightarrow>
           leads_after out ! i = storedLeadList inp ! i"
proof -
  let ?resolved = "resolve_leadId (channelSession ss (channelId inp)) (merged_draft ex inp ss)
      (storedLeadList inp)"
  from run_fields(3) [OF run] c have same: "resolved_leadId out = ?resolved"
    by simp
  from run_fields(4) [OF run] c have after: "leads_after out
      = (if id_truthy (resolved_leadId out)
         then map (\<lambda>l. if Some (lead_id l) = resolved_leadId out
                         then apply_payload (leadPayload out) l else l)
                  (storedLeadList inp)
         else storedLeadList inp)"
    by (simp add: same)
  show "length (leads_after out) = length (storedLeadList inp)"
    by (simp add: after)
  show "lead_id (leads_after out ! i) = lead_id (storedLeadList inp ! i)"
    if "i < length (storedLeadList inp)"
    using that by (simp add: after apply_payload_def)
  show "lead_score (leads_after out ! i) = payload_score (leadPayload out)"
    if "i < length (storedLeadList inp)" "id_truthy (resolved_leadId out)"
      "Some (lead_id (storedLeadList inp ! i)) = resolved_leadId out"
    using that by (simp add: after apply_payload_def)
  show "leads_after out ! i = storedLeadList inp ! i"
    if "i < length (storedLeadList inp)"
      "\<not> (id_truthy (resolved_leadId out)
          \<and> Some (lead_id (storedLeadList inp ! i)) = resolved_leadId out)"
    using that by (auto simp: after)
qed

text \<open>
  C10. For every draft the computed score is an integer from 25 to 100, and 25 for
  the empty draft. The payload of every call that processes a message carries the
  score of the merged draft. A call that creates the lead puts one new lead, with the
  fresh id and that score, in front of the stored list. A call that does not create a
  lead writes a list of the same length with the same ids in the same places: every
  stored lead whose id is the resolved lead id is updated and then carries the score
  of the payload, and every other lead is left as it was. So every lead a call creates
  or updates satisfies \<open>0 \<le> score \<le> 100\<close>, whatever score it had before.
\<close>

theorem lead_score_floor:
  "25 \<le> agentComputeLeadScore d \<and> agentComputeLeadScore d \<le> 100
   \<and> agentComputeLeadScore empty_draft = 25
   \<and> (\<forall>out ss'. runAgentWorkflow ex sn inp ss = (Processed out, ss') \<longrightarrow>
         payload_score (leadPayload out) = agentComputeLeadScore (nextDraft out)
         \<and> 25 \<le> payload_score (leadPayload out) \<and> payload_score (leadPayload out) \<le> 100
         \<and> (createdLead out \<longrightarrow>
               (\<exists>l. leads_after out = l # storedLeadList inp
                    \<and> lead_id l = createId ''k'' (new_lead_suffix inp)
                    \<and> lead_score l = payload_score (leadPayload out)
                    \<and> 0 \<le> lead_score l \<and> lead_score l \<le> 100))
         \<and> (\<not> createdLead out \<longrightarrow>
               length (leads_after out) = length (storedLeadList inp)
               \<and> (\<forall>i < length (storedLeadList inp).
                     lead_id (leads_after out ! i) = lead_id (storedLeadList inp ! i)
                     \<and> (id_truthy (resolved_leadId out)
                          \<and> Some (lead_id (storedLeadList inp ! i)) = resolved_leadId out \<longrightarrow>
                            lead_score (leads_after out ! i) = payload_score (leadPayload out)
                            \<and> 0 \<le> lead_score (leads_after out ! i)
                            \<and> lead_score (leads_after out ! i) \<le> 100)
                     \<and> (\<not> (id_truthy (resolved_leadId out)
                             \<and> Some (lead_id (storedLeadList inp ! i)) = resolved_leadId out) \<longrightarrow>
                            leads_after out ! i = storedLeadList inp ! i)))
         \<and> (\<forall>l \<in> set (leads_after out). l \<notin> set (storedLeadList inp) \<longrightarrow>
               0 \<le> lead_score l \<and> lead_score l \<le> 100))"
proof -
  have empty: "agentComputeLeadScore empty_draft = 25"
    by (simp add: agentComputeLeadScore_def empty_draft_def get_prop_def)
  have written: "payload_score (leadPayload out) = agentComputeLeadScore (nextDraft out)
      \<and> 25 \<le> payload_score (leadPayload out) \<and> payload_score (leadPayload out) \<le> 100
      \<and> (createdLead out \<longrightarrow>
            (\<exists>l. leads_after out = l # storedLeadList inp
                 \<and> lead_id l = createId ''k'' (new_lead_suffix inp)
                 \<and> lead_score l = payload_score (leadPayload out)
                 \<and> 0 \<le> lead_score l \<and> lead_score l \<le> 100))
      \<and> (\<not> createdLead out \<longrightarrow>
            length (leads_after out) = length (storedLeadList inp)
            \<and> (\<forall>i < length (storedLeadList inp).
                  lead_id (leads_after out ! i) = lead_id (storedLeadList inp ! i)
                  \<and> (id_truthy (resolved_leadId out)
                       \<and> Some (lead_id (storedLeadList inp ! i)) = resolved_leadId out \<longrightarrow>
                         lead_score (leads_after out ! i) = payload_score (leadPayload out)
                         \<and> 0 \<le> lead_score (leads_after out ! i)
                         \<and> lead_score (leads_after out ! i) \<le> 100)
                  \<and> (\<not> (id_truthy (resolved_leadId out)
                          \<and> Some (lead_id (storedLeadList inp ! i)) = resolved_leadId out) \<longrightarrow>
                         leads_after out ! i = storedLeadList inp ! i)))
      \<and> (\<forall>l \<in> set (leads_after out). l \<notin> set (storedLeadList inp) \<longrightarrow>
            0 \<le> lead_score l \<and> lead_score l \<le> 100)"
    if run: "runAgentWorkflow ex sn inp ss = (Processed out, ss')" for out ss'
  proof -
    have p: "payload_score (leadPayload out) = agentComputeLeadScore (nextDraft out)"
      using run_fields(1,7) [OF run] by simp
    have r: "25 \<le> payload_score (leadPayload out) \<and> payload_score (leadPayload out) \<le> 100"
      unfolding p by (rule score_range)
    have created: "\<exists>l. leads_after out = l # storedLeadList inp
                 \<and> lead_id l = createId ''k'' (new_lead_suffix inp)
                 \<and> lead_score l = payload_score (leadPayload out)
                 \<and> 0 \<le> lead_score l \<and> lead_score l \<le> 100"
      if "createdLead out"
      using created_lead_written [OF run that] r by auto
    have updated: "length (leads_after out) = length (storedLeadList inp)
            \<and> (\<forall>i < length (storedLeadList inp).
                  lead_id (leads_after out ! i) = lead_id (storedLeadList inp ! i)
                  \<and> (id_truthy (resolved_leadId out)
                       \<and> Some (lead_id (storedLeadList inp ! i)) = resolved_leadId out \<longrightarrow>
                         lead_score (leads_after out ! i) = payload_score (leadPayload out)
                         \<and> 0 \<le> lead_score (leads_after out ! i)
                         \<and> lead_score (leads_after out ! i) \<le> 100)
                  \<and> (\<not> (id_truthy (resolved_leadId out)
                          \<and> Some (lead_id (storedLeadList inp ! i)) = resolved_leadId out) \<longrightarrow>
                         leads_after out ! i = storedLeadList inp ! i))"
      if c: "\<not> createdLead out"
    proof -
      note u = updated_leads_written [OF run c]
      have "lead_id (leads_after out ! i) = lead_id (storedLeadList inp ! i)
          \<and> (id_truthy (resolved_leadId out)
               \<and> Some (lead_id (storedLeadList inp ! i)) = resolved_leadId out \<longrightarrow>
                 lead_score (leads_after out ! i) = payload_score (leadPayload out)
                 \<and> 0 \<le> lead_score (leads_after out ! i)
                 \<and> lead_score (leads_after out ! i) \<le> 100)
          \<and> (\<not> (id_truthy (resolved_leadId out)
                  \<and> Some (lead_id (storedLeadList inp ! i)) = resolved_leadId out) \<longrightarrow>
                 leads_after out ! i = storedLeadList inp ! i)"
        if i: "i < length (storedLeadList inp)" for i
      proof -
        have "lead_score (leads_after out ! i) = payload_score (leadPayload out)
              \<and> 0 \<le> lead_score (leads_after out ! i)
              \<and> lead_score (leads_after out ! i) \<le> 100"
          if "id_truthy (resolved_leadId out)"
            "Some (lead_id (storedLeadList inp ! i)) = resolved_leadId out"
          using u(3) [OF i that] r by simp
        with u(2) [OF i] u(4) [OF i] show ?thesis
          by blast
      qed
      with u(1) show ?thesis
        by blast
    qed
    have fresh: "0 \<le> lead_score l \<and> lead_score l \<le> 100"
      if "l \<in> set (leads_after out)" "l \<notin> set (storedLeadList inp)" for l
      using written_lead_score [OF run that] r by simp
    from p r created updated fresh show ?thesis
      by blast
  qed
  from score_range [of d] empty written show ?thesis
    by blast
qed

theorem lead_score_floor_witness:
  "runAgentWorkflow name_only not_a_number first_message no_sessions
     = (Processed (the (the_outcome (fst (runAgentWorkflow name_only not_a_number first_message no_sessions)))),
        snd (runAgentWorkflow name_only not_a_number first_message no_sessions))
   \<and> createdLead (the (the_outcome (fst (runAgentWorkflow name_only not_a_number first_message no_sessions))))
   \<and> map lead_score (leads_after (the (the_outcome (fst (runAgentWorkflow name_only not_a_number first_message no_sessions)))))
       = [35]
   \<and> runAgentWorkflow name_only not_a_number update_message sessions_after_first
     = (Processed (the (the_outcome (fst (runAgentWorkflow name_only not_a_number update_message sessions_after_first)))),
        snd (runAgentWorkflow name_only not_a_number update_message sessions_after_first))
   \<and> map lead_score (storedLeadList update_message) = [40, 500]
   \<and> resolved_leadId (the (the_outcome (fst (runAgentWorkflow name_only not_a_number update_message sessions_after_first))))
       = Some (lead_id (storedLeadList update_message ! 1))
   \<and> leads_after (the (the_outcome (fst (runAgentWorkflow name_only not_a_number update_message sessions_after_first)))) ! 0
       = lead_without_phone
   \<and> lead_score (leads_after (the (the_outcome (fst (runAgentWorkflow name_only not_a_number update_message sessions_after_first)))) ! 1)
       = 35"
proof -
  let ?run = "runAgentWorkflow name_only not_a_number first_message no_sessions"
  let ?out = "the (the_outcome (fst ?run))"
  have "fired (fst ?run)"
    by code_simp
  then obtain out where "fst ?run = Processed out"
    by (cases "fst ?run") (simp_all add: fired_def)
  then have run: "?run = (Processed ?out, snd ?run)"
    by (simp add: the_outcome_def prod_eq_iff)
  have v: "payload_score (leadPayload ?out) = 35"
    by code_simp
  have e: "storedLeadList first_message = []"
    by code_simp
  have c: "createdLead ?out"
    by code_simp
  from lead_score_floor [of "nextDraft ?out" name_only not_a_number first_message no_sessions]
    run c
  obtain l where "leads_after ?out = l # storedLeadList first_message"
    and "lead_score l = payload_score (leadPayload ?out)"
    by blast
  then have first: "map lead_score (leads_after ?out) = [35]"
    by (simp add: e v)
  let ?run2 = "runAgentWorkflow name_only not_a_number update_message sessions_after_first"
  let ?out2 = "the (the_outcome (fst ?run2))"
  have "the_outcome (fst ?run2) \<noteq> None"
    by code_simp
  then obtain out2 where "fst ?run2 = Processed out2"
    by (cases "fst ?run2") (simp_all add: the_outcome_def)
  then have run2: "?run2 = (Processed ?out2, snd ?run2)"
    by (simp add: the_outcome_def prod_eq_iff)
  have stored: "storedLeadList update_message = [lead_without_phone, stale_lead]"
    by code_simp
  have scores: "map lead_score (storedLeadList update_message) = [40, 500]"
    by code_simp
  have n: "\<not> createdLead ?out2"
    by code_simp
  have t: "id_truthy (resolved_leadId ?out2)"
    by code_simp
  have same: "resolved_leadId ?out2 = Some (lead_id (storedLeadList update_message ! 1))"
    by code_simp
  have other: "Some (lead_id (storedLeadList update_message ! 0)) \<noteq> resolved_leadId ?out2"
    by code_simp
  have v2: "payload_score (leadPayload ?out2) = 35"
    by code_simp
  from lead_score_floor [of "nextDraft ?out2" name_only not_a_number update_message
      sessions_after_first] run2 n
  have each: "\<forall>i < length (storedLeadList update_message).
      (id_truthy (resolved_leadId ?out2)
         \<and> Some (lead_id (storedLeadList update_message ! i)) = resolved_leadId ?out2 \<longrightarrow>
         lead_score (leads_after ?out2 ! i) = payload_score (leadPayload ?out2))
      \<and> (\<not> (id_truthy (resolved_leadId ?out2)
              \<and> Some (lead_id (storedLeadList update_message ! i)) = resolved_leadId ?out2) \<longrightarrow>
           leads_after ?out2 ! i = storedLeadList update_message ! i)"
    by blast
  have len: "(0 :: nat) < length (storedLeadList update_message)"
    "(1 :: nat) < length (storedLeadList update_message)"
    by (simp_all add: stored)
  from each len(2) t same have updated: "lead_score (leads_after ?out2 ! 1) = 35"
    by (simp add: v2)
  from each len(1) other have kept: "leads_after ?out2 ! 0 = storedLeadList update_message ! 0"
    by blast
  then have kept': "leads_after ?out2 ! 0 = lead_without_phone"
    by (simp add: stored)
  from run c first run2 scores same kept' updated show ?thesis
    by blast
qed

end
